theory Spec2Isabelle
  imports Complex_Main "HOL-Library.AList"
begin

section \<open>Numbers and strings of the host language\<close>

text \<open>
  The engine (\<^verbatim>\<open>src/assets/fluid-bg.ts\<close>) computes with the host's numbers. A
  number of the host is a real or one of three special values: \<open>NaN\<close> and the two
  infinities. The special values are kept where the code can meet them by itself or
  filters them: in what \<^verbatim>\<open>parseFloat\<close> hands to the unit resolver, in the arguments
  of the three coercing setters and in the global alpha they lead to. The other numbers
  that clients and the host pass in (fields of blobs, the other options, clock readings,
  sizes) are modelled as reals. Rounding to binary floating point and overflow of huge
  literals are not modelled.
\<close>

datatype jsnum = NaN | PosInf | NegInf | Fin real

text \<open>\<^verbatim>\<open>isNaN(n)\<close>\<close>

definition isNaN :: "jsnum \<Rightarrow> bool" where
  "isNaN n = (case n of NaN \<Rightarrow> True | _ \<Rightarrow> False)"

text \<open>\<^verbatim>\<open>a * n\<close> for a finite left factor \<open>a\<close>.\<close>

definition jmul :: "real \<Rightarrow> jsnum \<Rightarrow> jsnum" where
  "jmul a n =
     (case n of
        NaN \<Rightarrow> NaN
      | PosInf \<Rightarrow> (if a = 0 then NaN else if 0 < a then PosInf else NegInf)
      | NegInf \<Rightarrow> (if a = 0 then NaN else if 0 < a then NegInf else PosInf)
      | Fin r \<Rightarrow> Fin (a * r))"

text \<open>\<^verbatim>\<open>n / d\<close> for a positive finite divisor; the source divides by the literals
  100 and 2 only.\<close>

definition jdiv :: "jsnum \<Rightarrow> real \<Rightarrow> jsnum" where
  "jdiv n d = (case n of Fin r \<Rightarrow> Fin (r / d) | other \<Rightarrow> other)"

text \<open>\<^verbatim>\<open>n + a\<close> for a finite summand \<open>a\<close>.\<close>

definition jadd :: "jsnum \<Rightarrow> real \<Rightarrow> jsnum" where
  "jadd n a = (case n of Fin r \<Rightarrow> Fin (r + a) | other \<Rightarrow> other)"

text \<open>\<^verbatim>\<open>Math.max(a, n)\<close> and \<^verbatim>\<open>Math.min(b, n)\<close> for a finite bound: NaN goes
  through both.\<close>

definition jmax :: "real \<Rightarrow> jsnum \<Rightarrow> jsnum" where
  "jmax a n =
     (case n of NaN \<Rightarrow> NaN | PosInf \<Rightarrow> PosInf | NegInf \<Rightarrow> Fin a | Fin r \<Rightarrow> Fin (max a r))"

definition jmin :: "real \<Rightarrow> jsnum \<Rightarrow> jsnum" where
  "jmin b n =
     (case n of NaN \<Rightarrow> NaN | PosInf \<Rightarrow> Fin b | NegInf \<Rightarrow> NegInf | Fin r \<Rightarrow> Fin (min b r))"

text \<open>A string of the host is a sequence of UTF-16 code units, here natural numbers.
  \<open>js s\<close> is the string made of the characters written in \<open>s\<close>.\<close>

type_synonym jsstring = "nat list"

definition cu :: "char \<Rightarrow> nat" where
  "cu c = of_char c"

definition js :: "string \<Rightarrow> jsstring" where
  "js s = map cu s"

text \<open>White space as \<^verbatim>\<open>String.prototype.trim\<close> and \<^verbatim>\<open>parseFloat\<close> strip it: the
  white-space and line-terminator code points of the language, that is tab, line feed,
  vertical tab, form feed, carriage return, space, no-break space, U+1680, U+2000 to
  U+200A, U+2028, U+2029, U+202F, U+205F, U+3000 and U+FEFF.\<close>

definition isWhite :: "nat \<Rightarrow> bool" where
  "isWhite u =
     (u \<in> set [0x09, 0x0A, 0x0B, 0x0C, 0x0D, 0x20, 0xA0, 0x1680, 0x2028, 0x2029, 0x202F,
                0x205F, 0x3000, 0xFEFF]
      \<or> (0x2000 \<le> u \<and> u \<le> 0x200A))"

definition trimStart :: "jsstring \<Rightarrow> jsstring" where
  "trimStart s = dropWhile isWhite s"

definition trim :: "jsstring \<Rightarrow> jsstring" where
  "trim s = rev (dropWhile isWhite (rev (dropWhile isWhite s)))"

text \<open>\<^verbatim>\<open>s.endsWith(x)\<close>\<close>

definition endsWith :: "jsstring \<Rightarrow> jsstring \<Rightarrow> bool" where
  "endsWith s x = (take (length x) (rev s) = rev x)"

subsection \<open>parseFloat\<close>

text \<open>
  \<^verbatim>\<open>parseFloat\<close> is the host's function: it skips leading white space and reads the
  longest prefix that is a decimal literal (an optional sign, then \<^verbatim>\<open>Infinity\<close>, or
  digits with an optional fraction, or a fraction alone, then an optional exponent);
  whatever follows the literal is ignored, and with no such prefix the result is NaN.
\<close>

definition digitVal :: "nat \<Rightarrow> nat option" where
  "digitVal u = (if cu CHR ''0'' \<le> u \<and> u \<le> cu CHR ''9'' then Some (u - cu CHR ''0'') else None)"

definition isDigit :: "nat \<Rightarrow> bool" where
  "isDigit u = (digitVal u \<noteq> None)"

definition digitsVal :: "jsstring \<Rightarrow> nat" where
  "digitsVal ds = foldl (\<lambda>acc c. 10 * acc + (case digitVal c of Some d \<Rightarrow> d | None \<Rightarrow> 0)) 0 ds"

text \<open>The exponent part at the head of the rest of the input: \<^verbatim>\<open>e\<close> or \<^verbatim>\<open>E\<close>, an
  optional sign and at least one digit; 0 when there is none.\<close>

definition exponentOf :: "jsstring \<Rightarrow> int" where
  "exponentOf s =
     (case s of
        [] \<Rightarrow> 0
      | c # r \<Rightarrow>
          if c = cu CHR ''e'' \<or> c = cu CHR ''E'' then
            (case r of
               [] \<Rightarrow> 0
             | d # r' \<Rightarrow>
                 if d = cu CHR ''-'' then
                   (if takeWhile isDigit r' = [] then 0 else - int (digitsVal (takeWhile isDigit r')))
                 else if d = cu CHR ''+'' then int (digitsVal (takeWhile isDigit r'))
                 else int (digitsVal (takeWhile isDigit r)))
          else 0)"

definition pow10 :: "int \<Rightarrow> real" where
  "pow10 e = (if 0 \<le> e then 10 ^ nat e else 1 / 10 ^ nat (- e))"

text \<open>An unsigned literal: the digits before the point, the point and the digits after
  it, the exponent.\<close>

definition unsignedLiteral :: "jsstring \<Rightarrow> jsnum" where
  "unsignedLiteral s =
     (if take 8 s = js ''Infinity'' then PosInf
      else
        let ip = takeWhile isDigit s;
            r1 = dropWhile isDigit s;
            hasDot = (r1 \<noteq> [] \<and> hd r1 = cu CHR ''.'');
            fp = (if hasDot then takeWhile isDigit (tl r1) else []);
            r2 = (if hasDot then dropWhile isDigit (tl r1) else r1)
        in if ip = [] \<and> fp = [] then NaN
           else Fin ((real (digitsVal ip) + real (digitsVal fp) / 10 ^ length fp)
                      * pow10 (exponentOf r2)))"

definition negate :: "jsnum \<Rightarrow> jsnum" where
  "negate n = (case n of NaN \<Rightarrow> NaN | PosInf \<Rightarrow> NegInf | NegInf \<Rightarrow> PosInf | Fin r \<Rightarrow> Fin (- r))"

definition parseFloat :: "jsstring \<Rightarrow> jsnum" where
  "parseFloat s =
     (case trimStart s of
        [] \<Rightarrow> NaN
      | c # r \<Rightarrow>
          if c = cu CHR ''-'' then negate (unsignedLiteral r)
          else if c = cu CHR ''+'' then unsignedLiteral r
          else unsignedLiteral (c # r))"

section \<open>Unit resolver\<close>

text \<open>The dimensions record that \<^verbatim>\<open>render\<close> builds for every blob, and the axis tag.\<close>

record Dims =
  dims_w :: real
  dims_h :: real
  dims_vMax :: real

datatype Axis = AxisX | AxisY | AxisVmax

text \<open>A value handed to the resolver is a number or a string (\<^verbatim>\<open>number | string\<close>).\<close>

datatype NumOrString = Num jsnum | Str jsstring

text \<open>\<^verbatim>\<open>unitToPx(v, dims, axis)\<close>, branch by branch.\<close>

definition unitToPx :: "NumOrString \<Rightarrow> Dims \<Rightarrow> Axis \<Rightarrow> jsnum" where
  "unitToPx v dims axis =
     (case v of
        Num n \<Rightarrow> n
      | Str v' \<Rightarrow>
          let s = trim v' in
          if endsWith s (js ''px'') then parseFloat s
          else if endsWith s (js ''%'') then
            jmul (if axis = AxisY then dims_h dims else dims_w dims) (jdiv (parseFloat s) 100)
          else if endsWith s (js ''vw'') then jmul (dims_w dims) (jdiv (parseFloat s) 100)
          else if endsWith s (js ''vh'') then jmul (dims_h dims) (jdiv (parseFloat s) 100)
          else if endsWith s (js ''vmax'') then jmul (dims_vMax dims) (jdiv (parseFloat s) 100)
          else let n = parseFloat s in if isNaN n then Fin 0 else n)"

text \<open>\<^verbatim>\<open>resolveDiameter(diameter, dims)\<close>\<close>

definition resolveDiameter :: "jsstring \<Rightarrow> Dims \<Rightarrow> jsnum" where
  "resolveDiameter diameter dims = unitToPx (Str diameter) dims AxisVmax"

text \<open>The suffixes the resolver knows.\<close>

definition recognizedSuffix :: "jsstring \<Rightarrow> bool" where
  "recognizedSuffix s =
     (endsWith s (js ''px'') \<or> endsWith s (js ''%'') \<or> endsWith s (js ''vw'') \<or> endsWith s (js ''vh'')
      \<or> endsWith s (js ''vmax''))"

text \<open>The code units a decimal literal can begin with: a digit, a sign, the point and
  the first letter of \<^verbatim>\<open>Infinity\<close>.\<close>

definition numberStart :: "nat \<Rightarrow> bool" where
  "numberStart u =
     (isDigit u \<or> u = cu CHR ''+'' \<or> u = cu CHR ''-'' \<or> u = cu CHR ''.'' \<or> u = cu CHR ''I'')"

text \<open>The dimensions \<^verbatim>\<open>render\<close> passes:
  \<^verbatim>\<open>{ w: cssW, h: cssH, vMax: Math.max(cssW, cssH) }\<close>\<close>

definition mkDims :: "real \<Rightarrow> real \<Rightarrow> Dims" where
  "mkDims cssW cssH = \<lparr>dims_w = cssW, dims_h = cssH, dims_vMax = max cssW cssH\<rparr>"

section \<open>Motion model\<close>

definition TAU :: real where
  "TAU = pi * 2"

text \<open>\<^verbatim>\<open>clamp\<close> and \<^verbatim>\<open>lerp\<close>, the two helpers at the end of the file. Every
  call of \<^verbatim>\<open>clamp\<close> has the bounds 0 and 1 and a value that can be NaN.\<close>

definition clamp :: "jsnum \<Rightarrow> real \<Rightarrow> real \<Rightarrow> jsnum" where
  "clamp v a b = jmin b (jmax a v)"

definition lerp :: "real \<Rightarrow> real \<Rightarrow> real \<Rightarrow> real" where
  "lerp a b t = a + (b - a) * t"

text \<open>\<^verbatim>\<open>x || 0\<close> and \<^verbatim>\<open>x || 1\<close> on a number.\<close>

definition or0 :: "real \<Rightarrow> real" where
  "or0 x = (if x = 0 then 0 else x)"

definition or1 :: "real \<Rightarrow> real" where
  "or1 x = (if x = 0 then 1 else x)"

record DriftSpec =
  drift_ax :: real
  drift_ay :: real
  drift_sx :: real
  drift_sy :: real
  drift_speed :: real

record BreathSpec =
  breath_scale :: "real \<times> real"
  breath_opacity :: "real \<times> real"
  breath_speed :: real
  breath_phase :: real

text \<open>The drift offsets \<^verbatim>\<open>dx\<close> and \<^verbatim>\<open>dy\<close> that \<^verbatim>\<open>render\<close> computes for a blob at
  \<open>t\<close> seconds.\<close>

definition driftDx :: "DriftSpec \<Rightarrow> real \<Rightarrow> real" where
  "driftDx d t =
     or0 (drift_ax d) * sin (TAU * drift_speed d * t)
     + or0 (drift_sx d) * cos (TAU * drift_speed d * 0.7 * t)"

definition driftDy :: "DriftSpec \<Rightarrow> real \<Rightarrow> real" where
  "driftDy d t =
     or0 (drift_ay d) * cos (TAU * drift_speed d * t)
     + or0 (drift_sy d) * sin (TAU * drift_speed d * 0.7 * t)"

text \<open>The breath multipliers \<^verbatim>\<open>(scaleMul, opacityMul)\<close>; \<open>None\<close> is a blob whose
  \<^verbatim>\<open>breath\<close> is null or missing.\<close>

definition breathMul :: "BreathSpec option \<Rightarrow> real \<Rightarrow> real \<times> real" where
  "breathMul br t =
     (case br of
        None \<Rightarrow> (1, 1)
      | Some b \<Rightarrow>
          let phase = or0 (breath_phase b) * TAU;
              s01 = 0.5 + 0.5 * sin (phase + TAU * breath_speed b * t)
          in (lerp (fst (breath_scale b)) (snd (breath_scale b)) s01,
              lerp (fst (breath_opacity b)) (snd (breath_opacity b)) s01))"

section \<open>Blobs and the registry\<close>

record LayerSpec =
  color :: "real \<times> real \<times> real"
  centerAlpha :: real
  midAlpha :: real
  edgeAlpha :: real

datatype CenterSpec = CenterFunc "Dims \<Rightarrow> real \<times> real" | CenterXY jsstring jsstring

text \<open>
  A blob object at run time. \<^verbatim>\<open>updateBlob\<close> accepts a \<^verbatim>\<open>Partial<BlobConfig>\<close> and may
  hand it to \<^verbatim>\<open>addBlob\<close> under a cast, so any field but the identifier can be missing
  from a stored blob: every field is optional (\<open>None\<close> is a missing field). The field
  \<^verbatim>\<open>breath\<close> can also be present and null (\<open>Some None\<close>).
\<close>

record BlobFields =
  diameter :: "jsstring option"
  center :: "CenterSpec option"
  layers :: "LayerSpec list option"
  opacity :: "real option"
  parallaxScale :: "real option"
  drift :: "DriftSpec option"
  breath :: "BreathSpec option option"

record PartialBlobConfig = BlobFields +
  partial_id :: "string option"

record BlobConfig = BlobFields +
  blob_id :: string

record InternalBlob = BlobConfig +
  diameterPx :: real

text \<open>\<^verbatim>\<open>materialize(cfg)\<close>: \<^verbatim>\<open>{ ...cfg, _diameterPx: 0 }\<close>\<close>

definition materialize :: "BlobConfig \<Rightarrow> InternalBlob" where
  "materialize cfg =
     \<lparr>diameter = diameter cfg, center = center cfg, layers = layers cfg,
      opacity = opacity cfg, parallaxScale = parallaxScale cfg, drift = drift cfg,
      breath = breath cfg, blob_id = blob_id cfg, diameterPx = 0\<rparr>"

text \<open>One field of the spread \<^verbatim>\<open>{ ...prev, ...cfg }\<close>: the partial's value when it has
  the field, the previous one otherwise.\<close>

definition spreadField :: "'a option \<Rightarrow> 'a option \<Rightarrow> 'a option" where
  "spreadField prevv cfgv = (case cfgv of Some v \<Rightarrow> Some v | None \<Rightarrow> prevv)"

text \<open>\<^verbatim>\<open>{ ...prev, ...cfg, id: prev.id }\<close>\<close>

definition spread :: "InternalBlob \<Rightarrow> PartialBlobConfig \<Rightarrow> BlobConfig" where
  "spread prev cfg =
     \<lparr>diameter = spreadField (diameter prev) (diameter cfg),
      center = spreadField (center prev) (center cfg),
      layers = spreadField (layers prev) (layers cfg),
      opacity = spreadField (opacity prev) (opacity cfg),
      parallaxScale = spreadField (parallaxScale prev) (parallaxScale cfg),
      drift = spreadField (drift prev) (drift cfg),
      breath = spreadField (breath prev) (breath cfg),
      blob_id = blob_id prev\<rparr>"

text \<open>\<^verbatim>\<open>cfg as BlobConfig\<close> for a partial whose identifier is the string \<open>i\<close>.\<close>

definition asBlobConfig :: "string \<Rightarrow> PartialBlobConfig \<Rightarrow> BlobConfig" where
  "asBlobConfig i cfg =
     \<lparr>diameter = diameter cfg, center = center cfg, layers = layers cfg,
      opacity = opacity cfg, parallaxScale = parallaxScale cfg, drift = drift cfg,
      breath = breath cfg, blob_id = i\<rparr>"

section \<open>The drawing surface\<close>

text \<open>
  The canvas and its 2D context belong to the host. The model keeps what the engine
  sets and what it paints: the drawing state with its stack of saved states, the current
  path, and the list of paints laid on the backing store since it was last blank. A
  \<^verbatim>\<open>clearRect\<close> that covers the whole backing store under the identity transform
  leaves the store blank. How the host validates colours, blend modes and filters is
  not modelled.
\<close>

datatype error = ContextUnavailable | TypeError | IndexSizeError | SyntaxError

datatype Filter = FilterNone | FilterBlur real

type_synonym Transform = "real \<times> real \<times> real \<times> real \<times> real \<times> real"

type_synonym ColorStop = "real \<times> (real \<times> real \<times> real) \<times> real"

datatype FillStyle =
    FillColor string
  | RadialGradient real real real real real real "ColorStop list"

record DrawState =
  ctx_transform :: Transform
  ctx_composite :: string
  ctx_filter :: Filter
  ctx_fillStyle :: FillStyle
  ctx_smoothing :: bool

type_synonym Arc = "real \<times> real \<times> real \<times> real \<times> real"

record Ctx2D = DrawState +
  ctx_stack :: "DrawState list"
  ctx_path :: "Arc list"
  ctx_alpha :: bool
  ctx_desynchronized :: bool

datatype Paint =
    FillRect DrawState real real real real
  | FillPath DrawState "Arc list"
  | Erase Transform real real real real

record Canvas =
  canvas_width :: real
  canvas_height :: real
  bitmap :: "Paint list"

definition identityTransform :: Transform where
  "identityTransform = (1, 0, 0, 1, 0, 0)"

text \<open>A context as \<^verbatim>\<open>getContext('2d', {alpha, desynchronized})\<close> returns it, which is
  also the state a context is reset to when the canvas is resized.\<close>

definition newCtx :: "bool \<Rightarrow> bool \<Rightarrow> Ctx2D" where
  "newCtx al de =
     \<lparr>ctx_transform = identityTransform, ctx_composite = ''source-over'',
      ctx_filter = FilterNone, ctx_fillStyle = FillColor ''#000000'', ctx_smoothing = True,
      ctx_stack = [], ctx_path = [], ctx_alpha = al, ctx_desynchronized = de\<rparr>"

definition drawState :: "Ctx2D \<Rightarrow> DrawState" where
  "drawState c =
     \<lparr>ctx_transform = ctx_transform c, ctx_composite = ctx_composite c,
      ctx_filter = ctx_filter c, ctx_fillStyle = ctx_fillStyle c,
      ctx_smoothing = ctx_smoothing c\<rparr>"

definition save :: "Ctx2D \<Rightarrow> Ctx2D" where
  "save c = c\<lparr>ctx_stack := drawState c # ctx_stack c\<rparr>"

definition restore :: "Ctx2D \<Rightarrow> Ctx2D" where
  "restore c =
     (case ctx_stack c of
        [] \<Rightarrow> c
      | s # r \<Rightarrow>
          c\<lparr>ctx_transform := ctx_transform s, ctx_composite := ctx_composite s,
            ctx_filter := ctx_filter s, ctx_fillStyle := ctx_fillStyle s,
            ctx_smoothing := ctx_smoothing s, ctx_stack := r\<rparr>)"

definition setTransform :: "real \<Rightarrow> real \<Rightarrow> real \<Rightarrow> real \<Rightarrow> real \<Rightarrow> real \<Rightarrow> Ctx2D \<Rightarrow> Ctx2D" where
  "setTransform a b c d e f cx = cx\<lparr>ctx_transform := (a, b, c, d, e, f)\<rparr>"

definition scale :: "real \<Rightarrow> real \<Rightarrow> Ctx2D \<Rightarrow> Ctx2D" where
  "scale kx ky cx =
     (case ctx_transform cx of
        (a, b, c, d, e, f) \<Rightarrow> cx\<lparr>ctx_transform := (a * kx, b * kx, c * ky, d * ky, e, f)\<rparr>)"

definition beginPath :: "Ctx2D \<Rightarrow> Ctx2D" where
  "beginPath cx = cx\<lparr>ctx_path := []\<rparr>"

definition arc :: "real \<Rightarrow> real \<Rightarrow> real \<Rightarrow> real \<Rightarrow> real \<Rightarrow> Ctx2D \<Rightarrow> Ctx2D" where
  "arc x y r a0 a1 cx = cx\<lparr>ctx_path := ctx_path cx @ [(x, y, r, a0, a1)]\<rparr>"

definition fill :: "Ctx2D \<Rightarrow> Canvas \<Rightarrow> Canvas" where
  "fill cx cv = cv\<lparr>bitmap := bitmap cv @ [FillPath (drawState cx) (ctx_path cx)]\<rparr>"

definition fillRect :: "Ctx2D \<Rightarrow> real \<Rightarrow> real \<Rightarrow> real \<Rightarrow> real \<Rightarrow> Canvas \<Rightarrow> Canvas" where
  "fillRect cx x y rw rh cv = cv\<lparr>bitmap := bitmap cv @ [FillRect (drawState cx) x y rw rh]\<rparr>"

definition clearRect :: "Ctx2D \<Rightarrow> real \<Rightarrow> real \<Rightarrow> real \<Rightarrow> real \<Rightarrow> Canvas \<Rightarrow> Canvas" where
  "clearRect cx x y rw rh cv =
     (if ctx_transform cx = identityTransform \<and> x \<le> 0 \<and> y \<le> 0
         \<and> canvas_width cv \<le> x + rw \<and> canvas_height cv \<le> y + rh
      then cv\<lparr>bitmap := []\<rparr>
      else cv\<lparr>bitmap := bitmap cv @ [Erase (ctx_transform cx) x y rw rh]\<rparr>)"

text \<open>No paint is left on the backing store.\<close>

definition blank :: "Canvas \<Rightarrow> bool" where
  "blank cv = (bitmap cv = [])"

section \<open>The engine\<close>

text \<open>What an operation reads from the host while it runs: the clock
  (\<^verbatim>\<open>performance.now()\<close>, one reading per operation), the pixel ratio, the canvas's
  layout box, whether a 2D context can be had, and the handle the next
  \<^verbatim>\<open>requestAnimationFrame\<close> returns.\<close>

record Host =
  host_now :: real
  host_devicePixelRatio :: real
  host_rectWidth :: real
  host_rectHeight :: real
  host_contextAvailable :: bool
  host_rafHandle :: nat

record FluidOptions =
  opt_alpha :: "jsnum option"
  opt_blurPx :: "real option"
  opt_parallaxVmax :: "real option"
  opt_fpsCap :: "real option"
  opt_composite :: "string option"
  opt_background :: "string option"
  opt_autoStart :: "bool option"
  opt_desynchronized :: "bool option"

record State =
  running :: bool
  alpha :: jsnum
  blurPx :: real
  parallaxVmax :: real
  fpsCap :: real
  composite :: string
  background :: "string option"
  dpr :: real
  cssW :: real
  cssH :: real
  lastFrameMs :: real
  startMs :: real
  desynchronized :: bool

text \<open>The object: the fields of the class, then two that record the host's side: the
  animation-frame callbacks that are scheduled and not yet run or cancelled, and the
  time stamps \<^verbatim>\<open>render\<close> has been called with.\<close>

record FluidBackground =
  canvas :: Canvas
  ctx :: "Ctx2D option"
  rafId :: nat
  blobs :: "(string \<times> InternalBlob) list"
  state :: State
  pending :: "nat list"
  rendered :: "real list"

text \<open>Truthiness of an optional string (\<^verbatim>\<open>!!s\<close>): present and not empty.\<close>

definition truthy :: "string option \<Rightarrow> bool" where
  "truthy s = (case s of None \<Rightarrow> False | Some v \<Rightarrow> v \<noteq> [])"

text \<open>\<^verbatim>\<open>x | 0\<close>: 0 for NaN and the infinities, otherwise truncation toward zero, then
  wrap-around into the signed 32-bit range.\<close>

definition toInt32 :: "jsnum \<Rightarrow> int" where
  "toInt32 v =
     (case v of
        Fin x \<Rightarrow>
          (let n = (if 0 \<le> x then \<lfloor>x\<rfloor> else \<lceil>x\<rceil>);
               m = n mod 2 ^ 32
           in if 2 ^ 31 \<le> m then m - 2 ^ 32 else m)
      | _ \<Rightarrow> 0)"

subsection \<open>Setters\<close>

definition setAlpha :: "jsnum \<Rightarrow> FluidBackground \<Rightarrow> FluidBackground" where
  "setAlpha a fb = fb\<lparr>state := (state fb)\<lparr>alpha := clamp a 0 1\<rparr>\<rparr>"

definition setBlurPx :: "jsnum \<Rightarrow> FluidBackground \<Rightarrow> FluidBackground" where
  "setBlurPx px fb = fb\<lparr>state := (state fb)\<lparr>blurPx := max 0 (real_of_int (toInt32 px))\<rparr>\<rparr>"

definition setParallax :: "real \<Rightarrow> FluidBackground \<Rightarrow> FluidBackground" where
  "setParallax v fb = fb\<lparr>state := (state fb)\<lparr>parallaxVmax := v\<rparr>\<rparr>"

definition setFpsCap :: "jsnum \<Rightarrow> FluidBackground \<Rightarrow> FluidBackground" where
  "setFpsCap fps fb = fb\<lparr>state := (state fb)\<lparr>fpsCap := max 0 (real_of_int (toInt32 fps))\<rparr>\<rparr>"

definition setComposite :: "string \<Rightarrow> FluidBackground \<Rightarrow> FluidBackground" where
  "setComposite mode fb = fb\<lparr>state := (state fb)\<lparr>composite := mode\<rparr>\<rparr>"

definition setBackground :: "string option \<Rightarrow> FluidBackground \<Rightarrow> FluidBackground" where
  "setBackground c fb = fb\<lparr>state := (state fb)\<lparr>background := c\<rparr>\<rparr>"

subsection \<open>Blob management\<close>

text \<open>The registry is a \<^verbatim>\<open>Map\<close>: \<^verbatim>\<open>set\<close> replaces the value of a key where it stands
  or appends a new key, \<^verbatim>\<open>delete\<close> removes the key, iteration runs in insertion order.\<close>

definition addBlob :: "BlobConfig \<Rightarrow> FluidBackground \<Rightarrow> FluidBackground" where
  "addBlob cfg fb =
     (let b = materialize cfg in fb\<lparr>blobs := AList.update (blob_id b) b (blobs fb)\<rparr>)"

definition updateBlob :: "string \<Rightarrow> PartialBlobConfig \<Rightarrow> FluidBackground \<Rightarrow> FluidBackground" where
  "updateBlob i cfg fb =
     (case map_of (blobs fb) i of
        None \<Rightarrow>
          (case partial_id cfg of
             None \<Rightarrow> fb
           | Some j \<Rightarrow> if j \<noteq> [] then addBlob (asBlobConfig j cfg) fb else fb)
      | Some prev \<Rightarrow>
          (let next = materialize (spread prev cfg)
           in fb\<lparr>blobs := AList.update i next (blobs fb)\<rparr>))"

definition removeBlob :: "string \<Rightarrow> FluidBackground \<Rightarrow> FluidBackground" where
  "removeBlob i fb = fb\<lparr>blobs := AList.delete i (blobs fb)\<rparr>"

subsection \<open>Viewport tracking\<close>

text \<open>\<^verbatim>\<open>Math.round\<close>\<close>

definition jsRound :: "real \<Rightarrow> real" where
  "jsRound x = real_of_int \<lfloor>x + 1 / 2\<rfloor>"

text \<open>\<^verbatim>\<open>ensureSize()\<close>. Assigning the canvas's width or height makes the host clear the
  backing store and reset the context.\<close>

definition ensureSize :: "Host \<Rightarrow> FluidBackground \<Rightarrow> FluidBackground" where
  "ensureSize host fb =
     (let dpr' = max 1 (or1 (host_devicePixelRatio host));
          cssW' = max 1 (real_of_int \<lfloor>host_rectWidth host\<rfloor>);
          cssH' = max 1 (real_of_int \<lfloor>host_rectHeight host\<rfloor>)
      in if cssW' \<noteq> cssW (state fb) \<or> cssH' \<noteq> cssH (state fb) \<or> dpr' \<noteq> dpr (state fb)
         then fb\<lparr>state := (state fb)\<lparr>cssW := cssW', cssH := cssH', dpr := dpr'\<rparr>,
                 canvas := \<lparr>canvas_width = max 1 (jsRound (cssW' * dpr')),
                            canvas_height = max 1 (jsRound (cssH' * dpr')),
                            bitmap = []\<rparr>,
                 ctx := map_option (\<lambda>c. newCtx (ctx_alpha c) (ctx_desynchronized c)) (ctx fb)\<rparr>
         else fb)"

subsection \<open>Rendering\<close>

text \<open>\<^verbatim>\<open>resolveCenter(center, dims)\<close>\<close>

definition resolveCenter :: "CenterSpec \<Rightarrow> Dims \<Rightarrow> jsnum \<times> jsnum" where
  "resolveCenter ctr dims =
     (case ctr of
        CenterFunc f \<Rightarrow> (let p = f dims in (Fin (fst p), Fin (snd p)))
      | CenterXY x y \<Rightarrow> (unitToPx (Str x) dims AxisX, unitToPx (Str y) dims AxisY))"

text \<open>The body of the inner loop for one layer \<open>L\<close>. The host's
  \<^verbatim>\<open>createRadialGradient\<close> throws a TypeError for an argument that is not finite and
  an IndexSizeError for a negative radius, and \<^verbatim>\<open>addColorStop\<close> throws a SyntaxError
  for a colour it cannot parse, which is what \<^verbatim>\<open>rgba(r,g,b,NaN)\<close> is; whatever was
  painted before stays.\<close>

definition paintLayer ::
  "State \<Rightarrow> InternalBlob \<Rightarrow> real \<Rightarrow> jsnum \<Rightarrow> jsnum \<Rightarrow> jsnum \<Rightarrow> LayerSpec
   \<Rightarrow> Ctx2D \<times> Canvas \<Rightarrow> (Ctx2D \<times> Canvas) \<times> error option" where
  "paintLayer s b opacityMul cx cy r L cc =
     (let A = clamp (jmul ((case opacity b of None \<Rightarrow> 1 | Some ov \<Rightarrow> ov) * opacityMul) (alpha s)) 0 1
      in case (cx, cy, r) of
           (Fin x, Fin y, Fin rad) \<Rightarrow>
             if rad < 0 then (cc, Some IndexSizeError)
             else
               (case (clamp (jmul (centerAlpha L) A) 0 1, clamp (jmul (midAlpha L) A) 0 1,
                      clamp (jmul (edgeAlpha L) A) 0 1) of
                  (Fin a0, Fin a1, Fin a2) \<Rightarrow>
                    let grad = RadialGradient x y 0 x y rad
                                 [(0, color L, a0), (0.5, color L, a1), (1, color L, a2)];
                        c1 = (fst cc)\<lparr>ctx_fillStyle := grad\<rparr>;
                        c2 = arc x y rad 0 TAU (beginPath c1)
                    in ((c2, fill c2 (snd cc)), None)
                | _ \<Rightarrow> (cc, Some SyntaxError))
         | _ \<Rightarrow> (cc, Some TypeError))"

fun paintLayers ::
  "State \<Rightarrow> InternalBlob \<Rightarrow> real \<Rightarrow> jsnum \<Rightarrow> jsnum \<Rightarrow> jsnum \<Rightarrow> LayerSpec list
   \<Rightarrow> Ctx2D \<times> Canvas \<Rightarrow> (Ctx2D \<times> Canvas) \<times> error option" where
  "paintLayers s b opacityMul cx cy r [] cc = (cc, None)"
| "paintLayers s b opacityMul cx cy r (L # Ls) cc =
     (case paintLayer s b opacityMul cx cy r L cc of
        (cc', Some e) \<Rightarrow> (cc', Some e)
      | (cc', None) \<Rightarrow> paintLayers s b opacityMul cx cy r Ls cc')"

text \<open>The body of the outer loop for one blob at \<open>t\<close> seconds. Reading a property of a
  missing \<^verbatim>\<open>layers\<close>, \<^verbatim>\<open>center\<close> or \<^verbatim>\<open>drift\<close> throws a TypeError; a missing
  \<^verbatim>\<open>diameter\<close> reaches the resolver as the string \<^verbatim>\<open>undefined\<close>.\<close>

definition renderBlob ::
  "State \<Rightarrow> real \<Rightarrow> InternalBlob \<Rightarrow> Ctx2D \<times> Canvas \<Rightarrow> (Ctx2D \<times> Canvas) \<times> error option" where
  "renderBlob s t b cc =
     (case layers b of
        None \<Rightarrow> (cc, Some TypeError)
      | Some Ls \<Rightarrow>
          if length Ls = 0 then (cc, None)
          else
            let dims = mkDims (cssW s) (cssH s) in
            (case center b of
               None \<Rightarrow> (cc, Some TypeError)
             | Some ctr \<Rightarrow>
                 let cen = resolveCenter ctr dims;
                     baseR = jdiv (resolveDiameter
                                     (case diameter b of None \<Rightarrow> js ''undefined'' | Some d \<Rightarrow> d) dims) 2
                 in (case drift b of
                       None \<Rightarrow> (cc, Some TypeError)
                     | Some d \<Rightarrow>
                         let dx = driftDx d t;
                             dy = driftDy d t;
                             mul = breathMul (case breath b of Some (Some br) \<Rightarrow> Some br | _ \<Rightarrow> None) t;
                             scaleMul = fst mul;
                             opacityMul = snd mul;
                             px = 0 * or0 (case parallaxScale b of None \<Rightarrow> 0 | Some v \<Rightarrow> v)
                                    * parallaxVmax s;
                             py = 0 * or0 (case parallaxScale b of None \<Rightarrow> 0 | Some v \<Rightarrow> v)
                                    * parallaxVmax s;
                             cx = jadd (jadd (fst cen) dx) px;
                             cy = jadd (jadd (snd cen) dy) py;
                             r = jmul scaleMul baseR
                         in paintLayers s b opacityMul cx cy r Ls cc)))"

fun renderBlobs ::
  "State \<Rightarrow> real \<Rightarrow> InternalBlob list \<Rightarrow> Ctx2D \<times> Canvas \<Rightarrow> (Ctx2D \<times> Canvas) \<times> error option" where
  "renderBlobs s t [] cc = (cc, None)"
| "renderBlobs s t (b # bs) cc =
     (case renderBlob s t b cc of
        (cc', Some e) \<Rightarrow> (cc', Some e)
      | (cc', None) \<Rightarrow> renderBlobs s t bs cc')"

text \<open>The first part of \<^verbatim>\<open>render\<close>: back to device pixels, then the background
  is filled when one is set and the store is cleared otherwise.\<close>

definition paintBackground :: "State \<Rightarrow> Ctx2D \<times> Canvas \<Rightarrow> Ctx2D \<times> Canvas" where
  "paintBackground s cc =
     (let c1 = setTransform 1 0 0 1 0 0 (save (fst cc));
          cv0 = snd cc
      in if truthy (background s)
         then
           (let c2 = c1\<lparr>ctx_composite := ''source-over'',
                        ctx_fillStyle := FillColor (case background s of None \<Rightarrow> [] | Some bg \<Rightarrow> bg)\<rparr>
            in (restore c2, fillRect c2 0 0 (canvas_width cv0) (canvas_height cv0) cv0))
         else (restore c1, clearRect c1 0 0 (canvas_width cv0) (canvas_height cv0) cv0))"

text \<open>The second part: the space of CSS pixels, the blend mode and the blur.\<close>

definition enterCssSpace :: "State \<Rightarrow> Ctx2D \<Rightarrow> Ctx2D" where
  "enterCssSpace s c =
     (let c1 = scale (dpr s) (dpr s) (save c);
          c2 = c1\<lparr>ctx_composite := composite s\<rparr>;
          c3 = c2\<lparr>ctx_filter := (if 0 < blurPx s then FilterBlur (blurPx s) else FilterNone)\<rparr>
      in c3\<lparr>ctx_smoothing := True\<rparr>)"

text \<open>\<^verbatim>\<open>render(tsMs)\<close>. The result carries the exception that ended the frame, if any;
  the object keeps whatever had been done by then.\<close>

definition render :: "real \<Rightarrow> FluidBackground \<Rightarrow> FluidBackground \<times> error option" where
  "render tsMs fb0 =
     (let fb = fb0\<lparr>rendered := rendered fb0 @ [tsMs]\<rparr> in
      case ctx fb of
        None \<Rightarrow> (fb, Some TypeError)
      | Some c0 \<Rightarrow>
          (let s = state fb;
               bgd = paintBackground s (c0, canvas fb);
               c4 = enterCssSpace s (fst bgd);
               t = (tsMs - startMs s) / 1000;
               res = renderBlobs s t (map snd (blobs fb)) (c4, snd bgd);
               c5 = fst (fst res);
               cv2 = snd (fst res)
           in case snd res of
                Some e \<Rightarrow> (fb\<lparr>canvas := cv2, ctx := Some c5\<rparr>, Some e)
              | None \<Rightarrow>
                  (fb\<lparr>canvas := cv2, ctx := Some ((restore c5)\<lparr>ctx_filter := FilterNone\<rparr>)\<rparr>,
                   None)))"

subsection \<open>Frame scheduling and life cycle\<close>

text \<open>\<^verbatim>\<open>loop\<close>, the animation-frame callback.\<close>

definition loop :: "Host \<Rightarrow> FluidBackground \<Rightarrow> FluidBackground \<times> error option" where
  "loop host fb =
     (if \<not> running (state fb) then (fb, None)
      else
        let fb1 = fb\<lparr>rafId := host_rafHandle host, pending := pending fb @ [host_rafHandle host]\<rparr>;
            now = host_now host;
            dt = (if lastFrameMs (state fb1) \<noteq> 0 then now - lastFrameMs (state fb1) else 16.7);
            needCap = (0 < fpsCap (state fb1));
            minDt = (if needCap then 1000 / fpsCap (state fb1) else 0)
        in if needCap \<and> dt < minDt then (fb1, None)
           else render now (ensureSize host (fb1\<lparr>state := (state fb1)\<lparr>lastFrameMs := now\<rparr>\<rparr>)))"

definition start :: "Host \<Rightarrow> FluidBackground \<Rightarrow> FluidBackground \<times> error option" where
  "start host fb =
     (if running (state fb) then (fb, None)
      else loop host (fb\<lparr>state := (state fb)\<lparr>running := True, lastFrameMs := 0\<rparr>\<rparr>))"

definition stop :: "FluidBackground \<Rightarrow> FluidBackground" where
  "stop fb =
     (let fb1 = fb\<lparr>state := (state fb)\<lparr>running := False\<rparr>\<rparr>
      in if rafId fb1 \<noteq> 0
         then fb1\<lparr>pending := removeAll (rafId fb1) (pending fb1), rafId := 0\<rparr>
         else fb1)"

definition destroy :: "FluidBackground \<Rightarrow> FluidBackground" where
  "destroy fb =
     (let fb1 = stop fb;
          fb2 = (case ctx fb1 of
                   None \<Rightarrow> fb1
                 | Some c \<Rightarrow>
                     let c1 = setTransform 1 0 0 1 0 0 (save c);
                         cv = clearRect c1 0 0 (canvas_width (canvas fb1))
                                (canvas_height (canvas fb1)) (canvas fb1)
                     in fb1\<lparr>canvas := cv, ctx := Some (restore c1)\<rparr>)
      in fb2\<lparr>blobs := []\<rparr>)"

text \<open>The constructor. It throws when the canvas yields no 2D context.\<close>

definition getContext :: "Host \<Rightarrow> bool \<Rightarrow> bool \<Rightarrow> Ctx2D option" where
  "getContext host al de = (if host_contextAvailable host then Some (newCtx al de) else None)"

text \<open>The literal assigned to \<^verbatim>\<open>this.state\<close>; \<open>de\<close> is \<^verbatim>\<open>!!opts.desynchronized\<close>.\<close>

definition initialState :: "FluidOptions \<Rightarrow> Host \<Rightarrow> bool \<Rightarrow> State" where
  "initialState opts host de =
     \<lparr>running = False,
      alpha = (case opt_alpha opts of None \<Rightarrow> Fin 0.5 | Some v \<Rightarrow> v),
      blurPx = (case opt_blurPx opts of None \<Rightarrow> 36 | Some v \<Rightarrow> v),
      parallaxVmax = (case opt_parallaxVmax opts of None \<Rightarrow> 1.0 | Some v \<Rightarrow> v),
      fpsCap = (case opt_fpsCap opts of None \<Rightarrow> 0 | Some v \<Rightarrow> v),
      composite = (case opt_composite opts of None \<Rightarrow> ''source-over'' | Some v \<Rightarrow> v),
      background = opt_background opts,
      dpr = max 1 (or1 (host_devicePixelRatio host)),
      cssW = 0, cssH = 0, lastFrameMs = 0,
      startMs = host_now host,
      desynchronized = de\<rparr>"

definition constructor :: "Canvas \<Rightarrow> FluidOptions \<Rightarrow> Host \<Rightarrow> error + FluidBackground" where
  "constructor cv opts host =
     (let wantOpaque = truthy (opt_background opts);
          de = (opt_desynchronized opts = Some True)
      in case getContext host (\<not> wantOpaque) de of
           None \<Rightarrow> Inl ContextUnavailable
         | Some c \<Rightarrow>
             let fb = \<lparr>canvas = cv, ctx = Some c, rafId = 0, blobs = [],
                       state = initialState opts host de, pending = [], rendered = []\<rparr>;
                 fb1 = ensureSize host fb
             in if opt_autoStart opts \<noteq> Some False
                then (case start host fb1 of
                        (fb2, None) \<Rightarrow> Inr fb2
                      | (fb2, Some e) \<Rightarrow> Inl e)
                else Inr fb1)"

text \<open>The host runs the oldest scheduled callback with its own readings of the host.
  An exception in one callback does not stop the next one: it was scheduled before the
  exception, and the object keeps the state it had reached.\<close>

definition onFrame :: "Host \<Rightarrow> FluidBackground \<Rightarrow> FluidBackground \<times> error option" where
  "onFrame host fb =
     (case pending fb of
        [] \<Rightarrow> (fb, None)
      | p # ps \<Rightarrow> loop host (fb\<lparr>pending := ps\<rparr>))"

subsection \<open>Sequences of operations\<close>

text \<open>The calls a client and the host can make on a constructed engine, and what a
  sequence of them leaves.\<close>

datatype Op =
    SetAlpha jsnum
  | SetBlurPx jsnum
  | SetParallax real
  | SetFpsCap jsnum
  | SetComposite string
  | SetBackground "string option"
  | AddBlob BlobConfig
  | UpdateBlob string PartialBlobConfig
  | RemoveBlob string
  | Start Host
  | Stop
  | Destroy
  | Frame Host

fun applyOp :: "Op \<Rightarrow> FluidBackground \<Rightarrow> FluidBackground" where
  "applyOp (SetAlpha a) fb = setAlpha a fb"
| "applyOp (SetBlurPx px) fb = setBlurPx px fb"
| "applyOp (SetParallax v) fb = setParallax v fb"
| "applyOp (SetFpsCap fps) fb = setFpsCap fps fb"
| "applyOp (SetComposite mode) fb = setComposite mode fb"
| "applyOp (SetBackground c) fb = setBackground c fb"
| "applyOp (AddBlob cfg) fb = addBlob cfg fb"
| "applyOp (UpdateBlob i cfg) fb = updateBlob i cfg fb"
| "applyOp (RemoveBlob i) fb = removeBlob i fb"
| "applyOp (Start host) fb = fst (start host fb)"
| "applyOp Stop fb = stop fb"
| "applyOp Destroy fb = destroy fb"
| "applyOp (Frame host) fb = fst (onFrame host fb)"

fun applyOps :: "Op list \<Rightarrow> FluidBackground \<Rightarrow> FluidBackground" where
  "applyOps [] fb = fb"
| "applyOps (op # ops) fb = applyOps ops (applyOp op fb)"

text \<open>An options object with no option set.\<close>

definition emptyOptions :: FluidOptions where
  "emptyOptions =
     \<lparr>opt_alpha = None, opt_blurPx = None, opt_parallaxVmax = None, opt_fpsCap = None,
      opt_composite = None, opt_background = None, opt_autoStart = None,
      opt_desynchronized = None\<rparr>"

subsection \<open>Properties of a state\<close>

text \<open>The surface reads as fully transparent: nothing is painted on the backing store
  and the store has an alpha channel. The host keeps every pixel of a store whose context
  was created with \<^verbatim>\<open>alpha: false\<close> opaque, whatever is drawn or cleared.\<close>

definition readsTransparent :: "FluidBackground \<Rightarrow> bool" where
  "readsTransparent fb =
     (blank (canvas fb) \<and> (case ctx fb of None \<Rightarrow> True | Some c \<Rightarrow> ctx_alpha c))"

text \<open>The object holds a 2D context, as every constructed object does.\<close>

definition hasCtx :: "FluidBackground \<Rightarrow> bool" where
  "hasCtx fb = (case ctx fb of None \<Rightarrow> False | Some c \<Rightarrow> True)"

text \<open>Every key of the registry is the identifier of the blob stored under it.\<close>

definition keysCoherent :: "FluidBackground \<Rightarrow> bool" where
  "keysCoherent fb = list_all (\<lambda>kb. blob_id (snd kb) = fst kb) (blobs fb)"

text \<open>A number that is a nonnegative integer, and a number in the unit interval.\<close>

definition nonNegInt :: "real \<Rightarrow> bool" where
  "nonNegInt x = (0 \<le> x \<and> real_of_int \<lfloor>x\<rfloor> = x)"

definition unitInterval :: "jsnum \<Rightarrow> bool" where
  "unitInterval n = (case n of Fin x \<Rightarrow> 0 \<le> x \<and> x \<le> 1 | _ \<Rightarrow> False)"

text \<open>Any two of the time stamps, in the order they were recorded, are at least \<open>g\<close>
  apart.\<close>

fun spaced :: "real \<Rightarrow> real list \<Rightarrow> bool" where
  "spaced g [] = True"
| "spaced g (a # r) = (list_all (\<lambda>b. g \<le> b - a) r \<and> spaced g r)"

text \<open>An operation that belongs to a run of the loop under one ceiling: it neither
  starts the loop nor sets the ceiling, and if it is a frame callback, its clock reading
  is not 0, the value that \<^verbatim>\<open>lastFrameMs\<close> holds while no frame has been accepted.\<close>

definition sameRun :: "Op \<Rightarrow> bool" where
  "sameRun op =
     (case op of
        Start h \<Rightarrow> False
      | SetFpsCap f \<Rightarrow> False
      | Frame h \<Rightarrow> host_now h \<noteq> 0
      | _ \<Rightarrow> True)"

text \<open>What the frame loop does in the course of a sequence of operations: it begins a
  run (a \<^verbatim>\<open>start\<close> that finds the engine stopped), and it accepts a frame, at a clock
  reading and under the ceiling in force at that callback. An operation has accepted a
  frame when it leaves the log of rendered frames longer.\<close>

datatype Event = Restarted | Accepted real real

definition events :: "Op \<Rightarrow> FluidBackground \<Rightarrow> Event list" where
  "events op fb =
     (case op of Start h \<Rightarrow> (if running (state fb) then [] else [Restarted]) | _ \<Rightarrow> [])
     @ (if rendered (applyOp op fb) = rendered fb then []
        else [Accepted (last (rendered (applyOp op fb))) (fpsCap (state fb))])"

fun trace :: "Op list \<Rightarrow> FluidBackground \<Rightarrow> Event list" where
  "trace [] fb = []"
| "trace (op # ops) fb = events op fb @ trace ops (applyOp op fb)"

fun acceptedTimes :: "Event list \<Rightarrow> real list" where
  "acceptedTimes [] = []"
| "acceptedTimes (Restarted # r) = acceptedTimes r"
| "acceptedTimes (Accepted t c # r) = t # acceptedTimes r"

text \<open>The last accepted frame of the run as the engine remembers it: \<^verbatim>\<open>lastFrameMs\<close>,
  where 0 stands for none.\<close>

definition lastAccepted :: "FluidBackground \<Rightarrow> real option" where
  "lastAccepted fb = (if lastFrameMs (state fb) \<noteq> 0 then Some (lastFrameMs (state fb)) else None)"

text \<open>Every frame accepted under a positive ceiling \<open>c\<close> comes at least \<open>1000 / c\<close>
  milliseconds after the frame accepted before it in the same run, if there is one;
  \<open>prev\<close> is the frame accepted last before the events.\<close>

fun cappedGaps :: "real option \<Rightarrow> Event list \<Rightarrow> bool" where
  "cappedGaps prev [] = True"
| "cappedGaps prev (Restarted # r) = cappedGaps None r"
| "cappedGaps prev (Accepted t c # r) =
     ((case prev of None \<Rightarrow> True | Some p \<Rightarrow> 0 < c \<longrightarrow> 1000 / c \<le> t - p) \<and> cappedGaps (Some t) r)"

text \<open>Every accepted frame comes at least \<open>1000 / c\<close> milliseconds after every frame
  accepted before it in the same run, \<open>c\<close> being the ceiling it was accepted under;
  \<open>before\<close> holds the frames of the run accepted before the events.\<close>

fun cappedPairs :: "real list \<Rightarrow> Event list \<Rightarrow> bool" where
  "cappedPairs before [] = True"
| "cappedPairs before (Restarted # r) = cappedPairs [] r"
| "cappedPairs before (Accepted t c # r) =
     (list_all (\<lambda>a. 1000 / c \<le> t - a) before \<and> cappedPairs (before @ [t]) r)"

text \<open>The clock reading of an operation that enters the loop is not 0, the value that
  \<^verbatim>\<open>lastFrameMs\<close> holds while no frame has been accepted.\<close>

definition clockNonzero :: "Op \<Rightarrow> bool" where
  "clockNonzero op =
     (case op of Start h \<Rightarrow> host_now h \<noteq> 0 | Frame h \<Rightarrow> host_now h \<noteq> 0 | _ \<Rightarrow> True)"

text \<open>An operation that leaves a positive ceiling positive.\<close>

definition positiveCap :: "Op \<Rightarrow> bool" where
  "positiveCap op = (case op of SetFpsCap f \<Rightarrow> 0 < toInt32 f | _ \<Rightarrow> True)"

subsection \<open>Sample inputs\<close>

text \<open>A host, a canvas, a blob, a partial blob and a stopped engine with a background colour and some
  paint on its surface, for evaluating the operations at concrete inputs.\<close>

definition sampleHost :: Host where
  "sampleHost =
     \<lparr>host_now = 1000, host_devicePixelRatio = 2, host_rectWidth = 100, host_rectHeight = 50,
      host_contextAvailable = True, host_rafHandle = 1\<rparr>"

definition sampleCanvas :: Canvas where
  "sampleCanvas = \<lparr>canvas_width = 300, canvas_height = 150, bitmap = []\<rparr>"

definition sampleBlob :: BlobConfig where
  "sampleBlob =
     \<lparr>diameter = Some (js ''50%''), center = Some (CenterXY (js ''50%'') (js ''50%'')),
      layers = Some [\<lparr>color = (255, 0, 0), centerAlpha = 1, midAlpha = 0.5, edgeAlpha = 0\<rparr>],
      opacity = Some 1, parallaxScale = Some 0,
      drift = Some \<lparr>drift_ax = 0, drift_ay = 0, drift_sx = 0, drift_sy = 0, drift_speed = 0\<rparr>,
      breath = Some None, blob_id = ''b1''\<rparr>"

definition samplePartial :: PartialBlobConfig where
  "samplePartial =
     \<lparr>diameter = Some (js ''10vmax''), center = None, layers = None, opacity = None,
      parallaxScale = None, drift = None, breath = None, partial_id = Some ''other''\<rparr>"

definition sampleEngine :: FluidBackground where
  "sampleEngine =
     \<lparr>canvas = \<lparr>canvas_width = 200, canvas_height = 100,
                bitmap = [FillRect (drawState (newCtx True False)) 0 0 200 100]\<rparr>,
      ctx = Some (newCtx True False), rafId = 0,
      blobs = [(''b1'', materialize sampleBlob)],
      state = \<lparr>running = False, alpha = Fin 0.5, blurPx = 36, parallaxVmax = 1, fpsCap = 100,
               composite = ''source-over'', background = Some ''#ffffff'', dpr = 2,
               cssW = 100, cssH = 50, lastFrameMs = 0, startMs = 0, desynchronized = False\<rparr>,
      pending = [], rendered = []\<rparr>"

section \<open>Unit resolver: the claims\<close>

lemmas parse_defs = trim_def isWhite_def endsWith_def parseFloat_def trimStart_def
  unsignedLiteral_def isDigit_def digitVal_def digitsVal_def exponentOf_def pow10_def isNaN_def
  jmul_def jdiv_def recognizedSuffix_def js_def cu_def numberStart_def

lemma endsWith_append: "endsWith s x \<Longrightarrow> \<exists>p. s = p @ x"
proof -
  assume "endsWith s x"
  then have "rev s = rev x @ drop (length x) (rev s)"
    unfolding endsWith_def by (metis append_take_drop_id)
  then have "rev (rev s) = rev (rev x @ drop (length x) (rev s))"
    by (rule arg_cong)
  then have "s = rev (drop (length x) (rev s)) @ x"
    by simp
  then show ?thesis ..
qed

lemma endsWith_vmax_others:
  assumes "endsWith s (js ''vmax'')"
  shows "\<not> endsWith s (js ''px'') \<and> \<not> endsWith s (js ''%'') \<and> \<not> endsWith s (js ''vw'')
         \<and> \<not> endsWith s (js ''vh'')"
proof -
  from endsWith_append [OF assms] obtain p where "s = p @ js ''vmax''" ..
  then show ?thesis
    by (simp add: endsWith_def js_def cu_def)
qed

lemma endsWith_percent_px:
  assumes "endsWith s (js ''%'')"
  shows "\<not> endsWith s (js ''px'')"
proof -
  from endsWith_append [OF assms] obtain p where "s = p @ js ''%''" ..
  then show ?thesis
    by (simp add: endsWith_def js_def cu_def)
qed

text \<open>A trimmed string does not begin with white space, so \<^verbatim>\<open>parseFloat\<close> has
  nothing to skip in it.\<close>

lemma trim_head: "trim v = c # r \<Longrightarrow> \<not> isWhite c"
proof -
  assume t: "trim v = c # r"
  define w where "w = dropWhile isWhite v"
  have "rev (rev w) = rev (takeWhile isWhite (rev w) @ dropWhile isWhite (rev w))"
    unfolding takeWhile_dropWhile_id ..
  then have "w = rev (dropWhile isWhite (rev w)) @ rev (takeWhile isWhite (rev w))"
    unfolding rev_append rev_rev_ident .
  then have "w = trim v @ rev (takeWhile isWhite (rev w))"
    unfolding trim_def w_def .
  with t have "w = c # (r @ rev (takeWhile isWhite (rev w)))"
    by simp
  then have "\<exists>x. w = c # x"
    by (rule exI)
  then obtain x where "dropWhile isWhite v = c # x"
    unfolding w_def ..
  with hd_dropWhile [of isWhite v] show ?thesis
    by simp
qed

lemma trimStart_trim: "trimStart (trim v) = trim v"
proof (cases "trim v")
  case Nil
  then show ?thesis by (simp add: trimStart_def)
next
  case (Cons c r)
  with trim_head [of v c r] show ?thesis by (simp add: trimStart_def)
qed

text \<open>A string whose first sign is none that can begin a literal holds no number.\<close>

lemma parseFloat_no_number:
  assumes "trim v = [] \<or> \<not> numberStart (hd (trim v))"
  shows "parseFloat (trim v) = NaN"
proof (cases "trim v")
  case Nil
  then show ?thesis by (simp add: parseFloat_def trimStart_def)
next
  case (Cons c r)
  with assms have n: "\<not> numberStart c" by simp
  from Cons trim_head [of v c r] have ts: "trimStart (c # r) = c # r"
    by (simp add: trimStart_def)
  from n have "unsignedLiteral (c # r) = NaN"
    by (simp add: unsignedLiteral_def numberStart_def js_def Let_def)
  with n ts Cons show ?thesis
    by (simp add: parseFloat_def numberStart_def)
qed

text \<open>Digits followed by something that continues neither the digits nor a fraction
  are read as the number the digits write, times the power of ten of an exponent part
  that may follow.\<close>

lemma isDigit_not_white: "isDigit c \<Longrightarrow> \<not> isWhite c"
  by (auto simp add: isDigit_def digitVal_def isWhite_def cu_def split: if_splits)

lemma parseFloat_digits:
  assumes ds: "ds \<noteq> []" "list_all isDigit ds"
    and tl: "rest = [] \<or> (\<not> isDigit (hd rest) \<and> hd rest \<noteq> cu CHR ''.'')"
  shows "parseFloat (ds @ rest) = Fin (real (digitsVal ds) * pow10 (exponentOf rest))"
proof -
  from ds obtain d ds' where dd: "ds = d # ds'" by (cases ds) auto
  with ds have d: "isDigit d" by simp
  then have nw: "\<not> isWhite d" by (rule isDigit_not_white)
  from d have ns: "d \<noteq> cu CHR ''-''" "d \<noteq> cu CHR ''+''" "d \<noteq> cu CHR ''I''"
    by (auto simp add: isDigit_def digitVal_def cu_def split: if_splits)
  from ds(2) have all: "\<forall>x\<in>set ds. isDigit x" by (simp add: list_all_iff)
  from tl have tw: "takeWhile isDigit (ds @ rest) = ds"
    by (cases rest) (simp_all add: all)
  from tl have dw: "dropWhile isDigit (ds @ rest) = rest"
    by (cases rest) (simp_all add: all)
  have inf: "take 8 (ds @ rest) \<noteq> js ''Infinity''"
    using ns(3) by (simp add: dd js_def)
  from tl have nodot: "(rest \<noteq> [] \<and> hd rest = cu CHR ''.'') = False" by auto
  have "unsignedLiteral (ds @ rest) = Fin (real (digitsVal ds) * pow10 (exponentOf rest))"
    unfolding unsignedLiteral_def Let_def tw dw nodot using inf ds(1)
    by (simp add: digitsVal_def)
  moreover have "parseFloat (ds @ rest) = unsignedLiteral (ds @ rest)"
    using nw ns by (simp add: parseFloat_def trimStart_def dd)
  ultimately show ?thesis by simp
qed

text \<open>
  C1 (as amended). For every string whose trimmed form ends with none of the suffixes
  \<^verbatim>\<open>px\<close>, \<^verbatim>\<open>%\<close>, \<^verbatim>\<open>vw\<close>, \<^verbatim>\<open>vh\<close>, \<^verbatim>\<open>vmax\<close>, the resolver returns
  0 when \<^verbatim>\<open>parseFloat\<close> finds no number at the head of the string, and the number it
  finds otherwise; no branch raises and the result is never NaN. No number is found in
  the empty string and in a string whose first sign is not a digit, a sign, a point or
  the letter I; digits followed by an unknown unit are read as the number they write.
  In particular \<^verbatim>\<open>bogus\<close> resolves to 0 for all dimensions and axes.
\<close>

theorem unitToPx_unrecognized_suffix:
  "(\<not> recognizedSuffix (trim v) \<and> isNaN (parseFloat (trim v))
      \<longrightarrow> unitToPx (Str v) dims axis = Fin 0)
   \<and> (\<not> recognizedSuffix (trim v) \<and> \<not> isNaN (parseFloat (trim v))
      \<longrightarrow> unitToPx (Str v) dims axis = parseFloat (trim v))
   \<and> (\<not> recognizedSuffix (trim v) \<longrightarrow> \<not> isNaN (unitToPx (Str v) dims axis))
   \<and> (\<not> recognizedSuffix (trim v) \<and> (trim v = [] \<or> \<not> numberStart (hd (trim v)))
      \<longrightarrow> unitToPx (Str v) dims axis = Fin 0)
   \<and> (\<not> recognizedSuffix (trim v) \<and> trim v = ds @ rest \<and> ds \<noteq> [] \<and> list_all isDigit ds
       \<and> (rest = [] \<or> (\<not> isDigit (hd rest) \<and> hd rest \<noteq> cu CHR ''.''))
      \<longrightarrow> unitToPx (Str v) dims axis = Fin (real (digitsVal ds) * pow10 (exponentOf rest)))
   \<and> unitToPx (Str (js ''bogus'')) dims axis = Fin 0"
proof -
  have b: "unitToPx (Str (js ''bogus'')) dims axis = Fin 0"
    by (simp add: unitToPx_def parse_defs)
  have n: "\<not> recognizedSuffix (trim v) \<and> (trim v = [] \<or> \<not> numberStart (hd (trim v)))
      \<longrightarrow> unitToPx (Str v) dims axis = Fin 0"
  proof
    assume a: "\<not> recognizedSuffix (trim v) \<and> (trim v = [] \<or> \<not> numberStart (hd (trim v)))"
    then have "parseFloat (trim v) = NaN"
      by (simp add: parseFloat_no_number)
    with a show "unitToPx (Str v) dims axis = Fin 0"
      by (simp add: unitToPx_def recognizedSuffix_def Let_def isNaN_def)
  qed
  have d: "\<not> recognizedSuffix (trim v) \<and> trim v = ds @ rest \<and> ds \<noteq> [] \<and> list_all isDigit ds
       \<and> (rest = [] \<or> (\<not> isDigit (hd rest) \<and> hd rest \<noteq> cu CHR ''.''))
      \<longrightarrow> unitToPx (Str v) dims axis = Fin (real (digitsVal ds) * pow10 (exponentOf rest))"
  proof
    assume a: "\<not> recognizedSuffix (trim v) \<and> trim v = ds @ rest \<and> ds \<noteq> [] \<and> list_all isDigit ds
       \<and> (rest = [] \<or> (\<not> isDigit (hd rest) \<and> hd rest \<noteq> cu CHR ''.''))"
    then have "parseFloat (ds @ rest) = Fin (real (digitsVal ds) * pow10 (exponentOf rest))"
      by (intro parseFloat_digits) simp_all
    with a have pf: "parseFloat (trim v) = Fin (real (digitsVal ds) * pow10 (exponentOf rest))"
      by simp
    from a have nr: "\<not> recognizedSuffix (trim v)" ..
    from nr pf show "unitToPx (Str v) dims axis = Fin (real (digitsVal ds) * pow10 (exponentOf rest))"
      by (simp add: unitToPx_def recognizedSuffix_def Let_def isNaN_def)
  qed
  have g: "(\<not> recognizedSuffix (trim v) \<and> isNaN (parseFloat (trim v))
      \<longrightarrow> unitToPx (Str v) dims axis = Fin 0)
   \<and> (\<not> recognizedSuffix (trim v) \<and> \<not> isNaN (parseFloat (trim v))
      \<longrightarrow> unitToPx (Str v) dims axis = parseFloat (trim v))
   \<and> (\<not> recognizedSuffix (trim v) \<longrightarrow> \<not> isNaN (unitToPx (Str v) dims axis))"
    by (simp add: unitToPx_def recognizedSuffix_def Let_def isNaN_def)
  from g n d b show ?thesis by blast
qed

theorem unitToPx_unrecognized_suffix_witness:
  "\<not> recognizedSuffix (trim (js ''bogus'')) \<and> isNaN (parseFloat (trim (js ''bogus'')))
   \<and> \<not> numberStart (hd (trim (js ''bogus'')))
   \<and> unitToPx (Str (js ''bogus'')) \<lparr>dims_w = 200, dims_h = 100, dims_vMax = 200\<rparr> AxisY = Fin 0
   \<and> \<not> recognizedSuffix (trim (js ''12'')) \<and> \<not> isNaN (parseFloat (trim (js ''12'')))
   \<and> unitToPx (Str (js ''12'')) \<lparr>dims_w = 200, dims_h = 100, dims_vMax = 200\<rparr> AxisY = Fin 12
   \<and> \<not> recognizedSuffix (trim ([0xA0] @ js ''12em ''))
   \<and> trim ([0xA0] @ js ''12em '') = js ''12'' @ js ''em''
   \<and> list_all isDigit (js ''12'') \<and> \<not> isDigit (hd (js ''em'')) \<and> hd (js ''em'') \<noteq> cu CHR ''.''
   \<and> unitToPx (Str ([0xA0] @ js ''12em '')) \<lparr>dims_w = 200, dims_h = 100, dims_vMax = 200\<rparr> AxisY
       = Fin 12"
  using unitToPx_unrecognized_suffix [of "js ''bogus''" "\<lparr>dims_w = 200, dims_h = 100, dims_vMax = 200\<rparr>" AxisY "[]" "[]"]
    unitToPx_unrecognized_suffix [of "js ''12''" "\<lparr>dims_w = 200, dims_h = 100, dims_vMax = 200\<rparr>" AxisY "[]" "[]"]
    unitToPx_unrecognized_suffix [of "[0xA0] @ js ''12em ''" "\<lparr>dims_w = 200, dims_h = 100, dims_vMax = 200\<rparr>" AxisY "js ''12''" "js ''em''"]
  by (simp add: parse_defs)

text \<open>The claim as it was stated fails on an unrecognized suffix that follows a number:
  \<^verbatim>\<open>12em\<close> resolves to 12, not to 0.\<close>

theorem unitToPx_unrecognized_suffix_counterexample:
  "\<not> recognizedSuffix (trim (js ''12em''))
   \<and> unitToPx (Str (js ''12em'')) \<lparr>dims_w = 200, dims_h = 100, dims_vMax = 200\<rparr> AxisX = Fin 12
   \<and> unitToPx (Str (js ''12em'')) \<lparr>dims_w = 200, dims_h = 100, dims_vMax = 200\<rparr> AxisX \<noteq> Fin 0"
  by (simp add: unitToPx_def parse_defs)

text \<open>A recognized suffix behind no number is not guarded the way the last branch is:
  the result is NaN.\<close>

lemma unitToPx_px_unparsable: "unitToPx (Str (js ''abcpx'')) dims axis = NaN"
  by (simp add: unitToPx_def parse_defs)

text \<open>White space around the expression is stripped whatever its kind: a no-break space
  before \<^verbatim>\<open>12\<close> and one after \<^verbatim>\<open>50%\<close> change nothing.\<close>

lemma unitToPx_no_break_space:
  "unitToPx (Str ([0xA0] @ js ''12'')) dims axis = Fin 12
   \<and> unitToPx (Str (js ''50%'' @ [0xA0])) \<lparr>dims_w = 200, dims_h = 100, dims_vMax = 200\<rparr> AxisX = Fin 100"
  by (simp add: unitToPx_def parse_defs)

text \<open>
  C2 (as amended). The diameter of a blob goes through the unit resolver with the axis
  \<^verbatim>\<open>vmax\<close> and the dimensions of the viewport: a diameter in \<^verbatim>\<open>vmax\<close> resolves to
  that percentage of the larger of width and height, and a diameter in \<^verbatim>\<open>%\<close>
  resolves to that percentage of the width.
\<close>

theorem resolveDiameter_units:
  "(endsWith (trim d) (js ''vmax'') \<and> parseFloat (trim d) = Fin p
      \<longrightarrow> resolveDiameter d (mkDims W H) = Fin (max W H * (p / 100)))
   \<and> (endsWith (trim d) (js ''%'') \<and> parseFloat (trim d) = Fin p
      \<longrightarrow> resolveDiameter d (mkDims W H) = Fin (W * (p / 100)))"
  by (auto simp add: resolveDiameter_def unitToPx_def mkDims_def jmul_def jdiv_def
      endsWith_vmax_others endsWith_percent_px)

theorem resolveDiameter_units_witness:
  "endsWith (trim (js ''10vmax'')) (js ''vmax'') \<and> parseFloat (trim (js ''10vmax'')) = Fin 10
   \<and> resolveDiameter (js ''10vmax'') (mkDims 200 400) = Fin 40
   \<and> endsWith (trim (js ''50%'')) (js ''%'') \<and> parseFloat (trim (js ''50%'')) = Fin 50
   \<and> resolveDiameter (js ''50%'') (mkDims 100 200) = Fin 50"
  using resolveDiameter_units [of "js ''10vmax''" 10 200 400]
    resolveDiameter_units [of "js ''50%''" 50 100 200]
  by (simp add: parse_defs)

text \<open>A diameter of \<^verbatim>\<open>50%\<close> in a viewport 100 wide and 200 high is 50, half the
  width, and not half the larger side.\<close>

theorem resolveDiameter_percent_counterexample:
  "resolveDiameter (js ''50%'') (mkDims 100 200) = Fin 50
   \<and> resolveDiameter (js ''50%'') (mkDims 100 200) \<noteq> Fin (max 100 200 * (50 / 100))"
  by (simp add: resolveDiameter_def unitToPx_def mkDims_def parse_defs)

section \<open>Motion model: the claims\<close>

lemma or0_id [simp]: "or0 x = x"
  by (simp add: or0_def)

lemma TAU_turns: "TAU * real n = real (2 * n) * pi"
  by (simp add: TAU_def)

lemma sin_shift_turns: "sin (x + TAU * real n) = sin x"
  unfolding TAU_turns sin_add sin_npi cos_npi by simp

lemma cos_shift_turns: "cos (x + TAU * real n) = cos x"
  unfolding TAU_turns cos_add sin_npi cos_npi by simp

text \<open>
  C6. For every drift spec and every elapsed time, the drift offsets are bounded by the
  sums of the absolute amplitudes: \<open>|dx| \<le> |ax| + |sx|\<close> and \<open>|dy| \<le> |ay| + |sy|\<close>.
\<close>

theorem drift_bounded:
  "\<bar>driftDx d t\<bar> \<le> \<bar>drift_ax d\<bar> + \<bar>drift_sx d\<bar>
   \<and> \<bar>driftDy d t\<bar> \<le> \<bar>drift_ay d\<bar> + \<bar>drift_sy d\<bar>"
proof -
  have m: "\<bar>a * u\<bar> \<le> \<bar>a\<bar>" if "\<bar>u\<bar> \<le> 1" for a u :: real
    using that by (simp add: abs_mult mult_left_le)
  have "\<bar>driftDx d t\<bar> \<le> \<bar>drift_ax d * sin (TAU * drift_speed d * t)\<bar>
      + \<bar>drift_sx d * cos (TAU * drift_speed d * 0.7 * t)\<bar>"
    unfolding driftDx_def or0_id by (rule abs_triangle_ineq)
  moreover have "\<bar>driftDy d t\<bar> \<le> \<bar>drift_ay d * cos (TAU * drift_speed d * t)\<bar>
      + \<bar>drift_sy d * sin (TAU * drift_speed d * 0.7 * t)\<bar>"
    unfolding driftDy_def or0_id by (rule abs_triangle_ineq)
  ultimately show ?thesis
    using m [of "sin (TAU * drift_speed d * t)" "drift_ax d"]
      m [of "cos (TAU * drift_speed d * 0.7 * t)" "drift_sx d"]
      m [of "cos (TAU * drift_speed d * t)" "drift_ay d"]
      m [of "sin (TAU * drift_speed d * 0.7 * t)" "drift_sy d"]
    by simp
qed

theorem drift_bounded_witness:
  "\<bar>driftDx \<lparr>drift_ax = 3, drift_ay = 4, drift_sx = 1, drift_sy = 2, drift_speed = 1\<rparr> 0\<bar> \<le> 3 + 1
   \<and> \<bar>driftDy \<lparr>drift_ax = 3, drift_ay = 4, drift_sx = 1, drift_sy = 2, drift_speed = 1\<rparr> 0\<bar> \<le> 4 + 2"
  using drift_bounded [of "\<lparr>drift_ax = 3, drift_ay = 4, drift_sx = 1, drift_sy = 2, drift_speed = 1\<rparr>" 0]
  by simp

text \<open>
  C3 (as amended). For every breath spec with speed \<open>s \<noteq> 0\<close> and every elapsed time
  \<open>t\<close>, the breath multipliers at \<open>t\<close> and at \<open>t + 1/s\<close> are equal (and without a
  breath spec they are constant). For every drift spec with speed \<open>s \<noteq> 0\<close> the drift
  offset at \<open>t\<close> equals the one at \<open>t + 10/s\<close>. Its second component runs at
  \<open>0.7 \<cdot> s\<close>: the drift offset at \<open>t + 1/s\<close> equals the one at \<open>t\<close> for every \<open>t\<close>
  if and only if \<open>sx = sy = 0\<close>.
\<close>

theorem motion_periods:
  "(breath_speed b \<noteq> 0 \<longrightarrow> breathMul (Some b) (t + 1 / breath_speed b) = breathMul (Some b) t)
   \<and> breathMul None (t + u) = breathMul None t
   \<and> (drift_speed d \<noteq> 0 \<longrightarrow>
        driftDx d (t + 10 / drift_speed d) = driftDx d t
        \<and> driftDy d (t + 10 / drift_speed d) = driftDy d t)
   \<and> (drift_speed d \<noteq> 0 \<and> drift_sx d = 0 \<and> drift_sy d = 0 \<longrightarrow>
        driftDx d (t + 1 / drift_speed d) = driftDx d t
        \<and> driftDy d (t + 1 / drift_speed d) = driftDy d t)
   \<and> (drift_speed d \<noteq> 0 \<longrightarrow>
        ((\<forall>u. driftDx d (u + 1 / drift_speed d) = driftDx d u
              \<and> driftDy d (u + 1 / drift_speed d) = driftDy d u)
         \<longleftrightarrow> drift_sx d = 0 \<and> drift_sy d = 0))"
proof -
  have br: "breathMul (Some b) (t + 1 / breath_speed b) = breathMul (Some b) t"
    if "breath_speed b \<noteq> 0"
  proof -
    have "breath_phase b * TAU + TAU * breath_speed b * (t + 1 / breath_speed b)
        = breath_phase b * TAU + TAU * breath_speed b * t + TAU * real 1"
      using that by (simp add: field_simps)
    then show ?thesis
      unfolding breathMul_def or0_id by (simp only: sin_shift_turns option.case Let_def)
  qed
  have e1: "TAU * s * (t + 10 / s) = TAU * s * t + TAU * real 10" if "s \<noteq> 0" for s
    using that by (simp add: field_simps)
  have e2: "TAU * s * 0.7 * (t + 10 / s) = TAU * s * 0.7 * t + TAU * real 7" if "s \<noteq> 0" for s
    using that by (simp add: field_simps)
  have e3: "TAU * s * (u + 1 / s) = TAU * s * u + TAU * real 1" if "s \<noteq> 0" for s u
    using that by (simp add: field_simps)
  have dr: "driftDx d (t + 10 / drift_speed d) = driftDx d t
        \<and> driftDy d (t + 10 / drift_speed d) = driftDy d t" if "drift_speed d \<noteq> 0"
    unfolding driftDx_def driftDy_def or0_id
    by (simp only: e1 [OF that] e2 [OF that] sin_shift_turns cos_shift_turns)
  have dr1: "driftDx d (u + 1 / drift_speed d) = driftDx d u
        \<and> driftDy d (u + 1 / drift_speed d) = driftDy d u"
    if "drift_speed d \<noteq> 0" "drift_sx d = 0" "drift_sy d = 0" for u
    unfolding driftDx_def driftDy_def or0_id
    by (simp only: e3 [OF that(1)] sin_shift_turns cos_shift_turns that(2,3) mult_zero_left)
  have only: "drift_sx d = 0 \<and> drift_sy d = 0"
    if s: "drift_speed d \<noteq> 0"
      and x: "driftDx d (0 + 1 / drift_speed d) = driftDx d 0"
      and y: "driftDy d (0 + 1 / drift_speed d) = driftDy d 0"
  proof -
    have a1: "TAU * drift_speed d * (0 + 1 / drift_speed d) = TAU"
      using s by simp
    have a2: "TAU * drift_speed d * 0.7 * (0 + 1 / drift_speed d) = 2 * pi / 5 + pi"
      using s by (simp add: TAU_def field_simps)
    have sT: "sin TAU = 0" and cT: "cos TAU = 1"
      by (simp_all add: TAU_def mult.commute)
    have c: "0 \<le> cos (2 * pi / 5)"
    proof (rule cos_ge_zero)
      show "- (pi / 2) \<le> 2 * pi / 5"
        using pi_gt_zero by linarith
      show "2 * pi / 5 \<le> pi / 2"
        using pi_gt_zero by linarith
    qed
    have sn: "0 < sin (2 * pi / 5)"
    proof (rule sin_gt_zero)
      show "0 < 2 * pi / 5"
        using pi_gt_zero by linarith
      show "2 * pi / 5 < pi"
        using pi_gt_zero by linarith
    qed
    from x have "drift_sx d * cos (2 * pi / 5 + pi) = drift_sx d"
      unfolding driftDx_def or0_id a1 a2 sT by simp
    then have "drift_sx d * (1 + cos (2 * pi / 5)) = 0"
      unfolding cos_periodic_pi by (simp add: algebra_simps)
    with c have sx: "drift_sx d = 0"
      by simp
    from y have "drift_sy d * sin (2 * pi / 5 + pi) = 0"
      unfolding driftDy_def or0_id a1 a2 cT by simp
    then have "drift_sy d * sin (2 * pi / 5) = 0"
      unfolding sin_periodic_pi by simp
    with sn have sy: "drift_sy d = 0"
      by simp
    from sx sy show ?thesis ..
  qed
  have iff: "(\<forall>u. driftDx d (u + 1 / drift_speed d) = driftDx d u
              \<and> driftDy d (u + 1 / drift_speed d) = driftDy d u)
         \<longleftrightarrow> drift_sx d = 0 \<and> drift_sy d = 0" if s: "drift_speed d \<noteq> 0"
  proof
    assume "\<forall>u. driftDx d (u + 1 / drift_speed d) = driftDx d u
              \<and> driftDy d (u + 1 / drift_speed d) = driftDy d u"
    then have "driftDx d (0 + 1 / drift_speed d) = driftDx d 0
              \<and> driftDy d (0 + 1 / drift_speed d) = driftDy d 0" ..
    with s show "drift_sx d = 0 \<and> drift_sy d = 0"
      by (intro only) simp_all
  next
    assume "drift_sx d = 0 \<and> drift_sy d = 0"
    with s show "\<forall>u. driftDx d (u + 1 / drift_speed d) = driftDx d u
              \<and> driftDy d (u + 1 / drift_speed d) = driftDy d u"
      by (intro allI dr1) simp_all
  qed
  from dr1 [of t] iff br dr show ?thesis
    by (simp add: breathMul_def)
qed

theorem motion_periods_witness:
  "breath_speed \<lparr>breath_scale = (1, 2), breath_opacity = (1, 1), breath_speed = 2, breath_phase = 0\<rparr> \<noteq> 0
   \<and> breathMul (Some \<lparr>breath_scale = (1, 2), breath_opacity = (1, 1), breath_speed = 2, breath_phase = 0\<rparr>) (3 + 1 / 2)
     = breathMul (Some \<lparr>breath_scale = (1, 2), breath_opacity = (1, 1), breath_speed = 2, breath_phase = 0\<rparr>) 3
   \<and> drift_speed \<lparr>drift_ax = 3, drift_ay = 4, drift_sx = 1, drift_sy = 2, drift_speed = 5\<rparr> \<noteq> 0
   \<and> driftDx \<lparr>drift_ax = 3, drift_ay = 4, drift_sx = 1, drift_sy = 2, drift_speed = 5\<rparr> (3 + 10 / 5)
     = driftDx \<lparr>drift_ax = 3, drift_ay = 4, drift_sx = 1, drift_sy = 2, drift_speed = 5\<rparr> 3
   \<and> driftDy \<lparr>drift_ax = 3, drift_ay = 4, drift_sx = 1, drift_sy = 2, drift_speed = 5\<rparr> (3 + 10 / 5)
     = driftDy \<lparr>drift_ax = 3, drift_ay = 4, drift_sx = 1, drift_sy = 2, drift_speed = 5\<rparr> 3
   \<and> drift_sx \<lparr>drift_ax = 3, drift_ay = 4, drift_sx = 0, drift_sy = 0, drift_speed = 5\<rparr> = 0
   \<and> drift_sy \<lparr>drift_ax = 3, drift_ay = 4, drift_sx = 0, drift_sy = 0, drift_speed = 5\<rparr> = 0
   \<and> driftDx \<lparr>drift_ax = 3, drift_ay = 4, drift_sx = 0, drift_sy = 0, drift_speed = 5\<rparr> (3 + 1 / 5)
     = driftDx \<lparr>drift_ax = 3, drift_ay = 4, drift_sx = 0, drift_sy = 0, drift_speed = 5\<rparr> 3
   \<and> \<not> (\<forall>u. driftDx \<lparr>drift_ax = 3, drift_ay = 4, drift_sx = 1, drift_sy = 2, drift_speed = 5\<rparr> (u + 1 / 5)
            = driftDx \<lparr>drift_ax = 3, drift_ay = 4, drift_sx = 1, drift_sy = 2, drift_speed = 5\<rparr> u
          \<and> driftDy \<lparr>drift_ax = 3, drift_ay = 4, drift_sx = 1, drift_sy = 2, drift_speed = 5\<rparr> (u + 1 / 5)
            = driftDy \<lparr>drift_ax = 3, drift_ay = 4, drift_sx = 1, drift_sy = 2, drift_speed = 5\<rparr> u)"
  using motion_periods [of "\<lparr>breath_scale = (1, 2), breath_opacity = (1, 1), breath_speed = 2, breath_phase = 0\<rparr>"
      3 0 "\<lparr>drift_ax = 3, drift_ay = 4, drift_sx = 1, drift_sy = 2, drift_speed = 5\<rparr>"]
    motion_periods [of "\<lparr>breath_scale = (1, 2), breath_opacity = (1, 1), breath_speed = 2, breath_phase = 0\<rparr>"
      3 0 "\<lparr>drift_ax = 3, drift_ay = 4, drift_sx = 0, drift_sy = 0, drift_speed = 5\<rparr>"]
  by simp

text \<open>With \<open>sx = 1\<close> and speed 1 the drift offset \<open>dx\<close> is 1 at \<open>t = 0\<close> and not
  above 0 one period \<open>1/s\<close> later.\<close>

theorem drift_period_counterexample:
  "driftDx \<lparr>drift_ax = 0, drift_ay = 0, drift_sx = 1, drift_sy = 0, drift_speed = 1\<rparr> 0 = 1
   \<and> driftDx \<lparr>drift_ax = 0, drift_ay = 0, drift_sx = 1, drift_sy = 0, drift_speed = 1\<rparr> (0 + 1 / 1) \<le> 0"
proof -
  have c: "0 \<le> cos (2 * pi / 5)"
  proof (rule cos_ge_zero)
    show "- (pi / 2) \<le> 2 * pi / 5"
      using pi_gt_zero by linarith
    show "2 * pi / 5 \<le> pi / 2"
      using pi_gt_zero by linarith
  qed
  have e: "TAU * (7 / 10) = 2 * pi / 5 + pi"
    by (simp add: TAU_def field_simps)
  have "cos (TAU * (7 / 10)) = - cos (2 * pi / 5)"
    unfolding e by (rule cos_periodic_pi)
  with c have "cos (TAU * (7 / 10)) \<le> 0"
    by linarith
  then show ?thesis
    by (simp add: driftDx_def)
qed

section \<open>The engine: what each operation leaves unchanged\<close>

lemma hasCtx_update [simp]:
  "hasCtx (fb\<lparr>rafId := r\<rparr>) = hasCtx fb"
  "hasCtx (fb\<lparr>pending := p\<rparr>) = hasCtx fb"
  "hasCtx (fb\<lparr>state := s\<rparr>) = hasCtx fb"
  "hasCtx (fb\<lparr>blobs := b\<rparr>) = hasCtx fb"
  "hasCtx (fb\<lparr>rendered := rs\<rparr>) = hasCtx fb"
  "hasCtx (fb\<lparr>canvas := cv\<rparr>) = hasCtx fb"
  "hasCtx (fb\<lparr>ctx := Some c\<rparr>)"
  by (simp_all add: hasCtx_def)

lemma ensureSize_state:
  "running (state (ensureSize h fb)) = running (state fb)"
  "alpha (state (ensureSize h fb)) = alpha (state fb)"
  "blurPx (state (ensureSize h fb)) = blurPx (state fb)"
  "parallaxVmax (state (ensureSize h fb)) = parallaxVmax (state fb)"
  "fpsCap (state (ensureSize h fb)) = fpsCap (state fb)"
  "composite (state (ensureSize h fb)) = composite (state fb)"
  "background (state (ensureSize h fb)) = background (state fb)"
  "lastFrameMs (state (ensureSize h fb)) = lastFrameMs (state fb)"
  "startMs (state (ensureSize h fb)) = startMs (state fb)"
  by (simp_all add: ensureSize_def Let_def)

lemma ensureSize_fields:
  "blobs (ensureSize h fb) = blobs fb"
  "rafId (ensureSize h fb) = rafId fb"
  "pending (ensureSize h fb) = pending fb"
  "rendered (ensureSize h fb) = rendered fb"
  "hasCtx (ensureSize h fb) = hasCtx fb"
  by (simp_all add: ensureSize_def Let_def hasCtx_def split: option.splits)

lemma render_fields:
  "state (fst (render t fb)) = state fb"
  "blobs (fst (render t fb)) = blobs fb"
  "rafId (fst (render t fb)) = rafId fb"
  "pending (fst (render t fb)) = pending fb"
  "rendered (fst (render t fb)) = rendered fb @ [t]"
  "hasCtx (fst (render t fb)) = hasCtx fb"
  by (simp_all add: render_def Let_def hasCtx_def split: option.splits)

lemma render_no_blobs:
  "blobs fb = [] \<Longrightarrow> hasCtx fb \<Longrightarrow> snd (render t fb) = None"
  by (auto simp add: render_def Let_def hasCtx_def split: option.splits)

lemma loop_state:
  "running (state (fst (loop h fb))) = running (state fb)"
  "alpha (state (fst (loop h fb))) = alpha (state fb)"
  "blurPx (state (fst (loop h fb))) = blurPx (state fb)"
  "parallaxVmax (state (fst (loop h fb))) = parallaxVmax (state fb)"
  "fpsCap (state (fst (loop h fb))) = fpsCap (state fb)"
  "composite (state (fst (loop h fb))) = composite (state fb)"
  "background (state (fst (loop h fb))) = background (state fb)"
  "startMs (state (fst (loop h fb))) = startMs (state fb)"
  by (simp_all add: loop_def Let_def render_fields ensureSize_state)

lemma loop_fields:
  "blobs (fst (loop h fb)) = blobs fb"
  "hasCtx (fst (loop h fb)) = hasCtx fb"
  by (simp_all add: loop_def Let_def render_fields ensureSize_fields)

lemma loop_schedule:
  "running (state fb) \<Longrightarrow> rafId (fst (loop h fb)) = host_rafHandle h"
  "running (state fb) \<Longrightarrow> pending (fst (loop h fb)) = pending fb @ [host_rafHandle h]"
  by (simp_all add: loop_def Let_def render_fields ensureSize_fields)

lemma loop_rendered:
  "rendered (fst (loop h fb)) =
     (if running (state fb)
         \<and> \<not> (0 < fpsCap (state fb)
               \<and> (if lastFrameMs (state fb) \<noteq> 0 then host_now h - lastFrameMs (state fb) else 16.7)
                   < 1000 / fpsCap (state fb))
      then rendered fb @ [host_now h] else rendered fb)"
  by (simp add: loop_def Let_def render_fields ensureSize_fields)

lemma loop_lastFrameMs:
  "lastFrameMs (state (fst (loop h fb))) =
     (if running (state fb)
         \<and> \<not> (0 < fpsCap (state fb)
               \<and> (if lastFrameMs (state fb) \<noteq> 0 then host_now h - lastFrameMs (state fb) else 16.7)
                   < 1000 / fpsCap (state fb))
      then host_now h else lastFrameMs (state fb))"
  by (simp add: loop_def Let_def render_fields ensureSize_state)

lemma loop_no_blobs:
  "blobs fb = [] \<Longrightarrow> hasCtx fb \<Longrightarrow> snd (loop h fb) = None"
  by (simp add: loop_def Let_def render_no_blobs ensureSize_fields)

lemma start_state:
  "alpha (state (fst (start h fb))) = alpha (state fb)"
  "blurPx (state (fst (start h fb))) = blurPx (state fb)"
  "parallaxVmax (state (fst (start h fb))) = parallaxVmax (state fb)"
  "fpsCap (state (fst (start h fb))) = fpsCap (state fb)"
  "composite (state (fst (start h fb))) = composite (state fb)"
  "background (state (fst (start h fb))) = background (state fb)"
  "startMs (state (fst (start h fb))) = startMs (state fb)"
  "running (state (fst (start h fb)))"
  by (simp_all add: start_def loop_state)

lemma start_fields:
  "blobs (fst (start h fb)) = blobs fb"
  "hasCtx (fst (start h fb)) = hasCtx fb"
  by (simp_all add: start_def loop_fields)

lemma start_no_blobs:
  "blobs fb = [] \<Longrightarrow> hasCtx fb \<Longrightarrow> snd (start h fb) = None"
  by (simp add: start_def loop_no_blobs)

lemma start_stopped:
  assumes "\<not> running (state fb)"
  shows "rafId (fst (start h fb)) = host_rafHandle h"
    and "pending (fst (start h fb)) = pending fb @ [host_rafHandle h]"
    and "rendered (fst (start h fb)) =
          (if 0 < fpsCap (state fb) \<and> 16.7 < 1000 / fpsCap (state fb) then rendered fb
           else rendered fb @ [host_now h])"
  using assms by (simp_all add: start_def loop_schedule loop_rendered)

lemma stop_fields:
  "blobs (stop fb) = blobs fb"
  "ctx (stop fb) = ctx fb"
  "hasCtx (stop fb) = hasCtx fb"
  "canvas (stop fb) = canvas fb"
  "rendered (stop fb) = rendered fb"
  "rafId (stop fb) = 0"
  "state (stop fb) = (state fb)\<lparr>running := False\<rparr>"
  by (simp_all add: stop_def Let_def hasCtx_def)

lemma constructor_eq:
  "constructor cv opts host =
     (if host_contextAvailable host
      then Inr (if opt_autoStart opts \<noteq> Some False
                then fst (start host (ensureSize host
                  \<lparr>canvas = cv,
                   ctx = Some (newCtx (\<not> truthy (opt_background opts)) (opt_desynchronized opts = Some True)),
                   rafId = 0, blobs = [],
                   state = initialState opts host (opt_desynchronized opts = Some True),
                   pending = [], rendered = []\<rparr>))
                else ensureSize host
                  \<lparr>canvas = cv,
                   ctx = Some (newCtx (\<not> truthy (opt_background opts)) (opt_desynchronized opts = Some True)),
                   rafId = 0, blobs = [],
                   state = initialState opts host (opt_desynchronized opts = Some True),
                   pending = [], rendered = []\<rparr>)
      else Inl ContextUnavailable)"
proof -
  define fb1 where "fb1 = ensureSize host
     \<lparr>canvas = cv, ctx = Some (newCtx (\<not> truthy (opt_background opts)) (opt_desynchronized opts = Some True)),
      rafId = 0, blobs = [],
      state = initialState opts host (opt_desynchronized opts = Some True), pending = [], rendered = []\<rparr>"
  have "snd (start host fb1) = None"
    by (rule start_no_blobs) (simp_all add: fb1_def ensureSize_fields, simp add: hasCtx_def)
  then show ?thesis
    by (cases "start host fb1")
      (simp add: constructor_def getContext_def Let_def fb1_def [symmetric])
qed

lemma constructor_result:
  assumes "constructor cv opts host = Inr fb"
  shows "blobs fb = []" and "hasCtx fb"
    and "alpha (state fb) = (case opt_alpha opts of None \<Rightarrow> Fin 0.5 | Some v \<Rightarrow> v)"
    and "blurPx (state fb) = (case opt_blurPx opts of None \<Rightarrow> 36 | Some v \<Rightarrow> v)"
    and "parallaxVmax (state fb) = (case opt_parallaxVmax opts of None \<Rightarrow> 1 | Some v \<Rightarrow> v)"
    and "fpsCap (state fb) = (case opt_fpsCap opts of None \<Rightarrow> 0 | Some v \<Rightarrow> v)"
    and "composite (state fb) = (case opt_composite opts of None \<Rightarrow> ''source-over'' | Some v \<Rightarrow> v)"
    and "background (state fb) = opt_background opts"
proof -
  define X where "X = \<lparr>canvas = cv,
      ctx = Some (newCtx (\<not> truthy (opt_background opts)) (opt_desynchronized opts = Some True)),
      rafId = 0, blobs = [],
      state = initialState opts host (opt_desynchronized opts = Some True),
      pending = [], rendered = []\<rparr>"
  from assms have fb: "fb = (if opt_autoStart opts \<noteq> Some False
      then fst (start host (ensureSize host X)) else ensureSize host X)"
    unfolding constructor_eq X_def by (simp split: if_splits)
  show "blobs fb = []"
    unfolding fb by (simp add: start_fields ensureSize_fields X_def)
  show "hasCtx fb"
    unfolding fb by (simp add: start_fields ensureSize_fields) (simp add: X_def hasCtx_def)
  show "alpha (state fb) = (case opt_alpha opts of None \<Rightarrow> Fin 0.5 | Some v \<Rightarrow> v)"
    unfolding fb by (simp add: start_state ensureSize_state X_def initialState_def split: option.splits)
  show "blurPx (state fb) = (case opt_blurPx opts of None \<Rightarrow> 36 | Some v \<Rightarrow> v)"
    unfolding fb by (simp add: start_state ensureSize_state X_def initialState_def split: option.splits)
  show "parallaxVmax (state fb) = (case opt_parallaxVmax opts of None \<Rightarrow> 1 | Some v \<Rightarrow> v)"
    unfolding fb by (simp add: start_state ensureSize_state X_def initialState_def split: option.splits)
  show "fpsCap (state fb) = (case opt_fpsCap opts of None \<Rightarrow> 0 | Some v \<Rightarrow> v)"
    unfolding fb by (simp add: start_state ensureSize_state X_def initialState_def split: option.splits)
  show "composite (state fb) = (case opt_composite opts of None \<Rightarrow> ''source-over'' | Some v \<Rightarrow> v)"
    unfolding fb by (simp add: start_state ensureSize_state X_def initialState_def split: option.splits)
  show "background (state fb) = opt_background opts"
    unfolding fb by (simp add: start_state ensureSize_state X_def initialState_def split: option.splits)
qed

section \<open>Construction: the claim\<close>

text \<open>
  C7 (as amended). Constructing the engine with an empty options object, on a canvas
  that yields a 2D context, gives the global state alpha 0.5, blur 36, parallax 1.0,
  frame-rate ceiling 0, blend mode \<^verbatim>\<open>source-over\<close> and no background; and, auto-start
  being on by default, the loop is started at once: the engine is running, one callback
  is scheduled and the first frame has been rendered.
\<close>

theorem constructor_defaults:
  assumes "host_contextAvailable host"
  shows "\<exists>fb. constructor cv emptyOptions host = Inr fb
           \<and> alpha (state fb) = Fin 0.5 \<and> blurPx (state fb) = 36 \<and> parallaxVmax (state fb) = 1
           \<and> fpsCap (state fb) = 0 \<and> composite (state fb) = ''source-over''
           \<and> background (state fb) = None
           \<and> running (state fb) \<and> rafId fb = host_rafHandle host
           \<and> pending fb = [host_rafHandle host] \<and> rendered fb = [host_now host]"
proof -
  define X where "X = ensureSize host \<lparr>canvas = cv,
      ctx = Some (newCtx (\<not> truthy (opt_background emptyOptions))
                  (opt_desynchronized emptyOptions = Some True)),
      rafId = 0, blobs = [],
      state = initialState emptyOptions host (opt_desynchronized emptyOptions = Some True),
      pending = [], rendered = []\<rparr>"
  have c: "constructor cv emptyOptions host = Inr (fst (start host X))"
    using assms by (simp add: constructor_eq X_def) (simp add: emptyOptions_def)
  have s: "\<not> running (state X)" "fpsCap (state X) = 0" "pending X = []" "rendered X = []"
    by (simp_all add: X_def ensureSize_state ensureSize_fields initialState_def emptyOptions_def)
  have "rafId (fst (start host X)) = host_rafHandle host"
    and "pending (fst (start host X)) = [host_rafHandle host]"
    and "rendered (fst (start host X)) = [host_now host]"
    using start_stopped [OF s(1), of host] by (simp_all add: s)
  moreover have "alpha (state (fst (start host X))) = Fin 0.5"
    and "blurPx (state (fst (start host X))) = 36"
    and "parallaxVmax (state (fst (start host X))) = 1"
    and "fpsCap (state (fst (start host X))) = 0"
    and "composite (state (fst (start host X))) = ''source-over''"
    and "background (state (fst (start host X))) = None"
    and "running (state (fst (start host X)))"
    by (simp_all add: start_state X_def ensureSize_state initialState_def emptyOptions_def)
  ultimately show ?thesis
    unfolding c by blast
qed

theorem constructor_defaults_witness:
  "host_contextAvailable sampleHost
   \<and> (\<exists>fb. constructor sampleCanvas emptyOptions sampleHost = Inr fb
           \<and> alpha (state fb) = Fin 0.5 \<and> blurPx (state fb) = 36 \<and> parallaxVmax (state fb) = 1
           \<and> fpsCap (state fb) = 0 \<and> composite (state fb) = ''source-over''
           \<and> background (state fb) = None
           \<and> running (state fb) \<and> rafId fb = 1 \<and> pending fb = [1] \<and> rendered fb = [1000])"
  using constructor_defaults [of sampleHost sampleCanvas]
  by (simp add: sampleHost_def)

text \<open>The default blend mode is the string \<^verbatim>\<open>source-over\<close>, not \<^verbatim>\<open>normal\<close>.\<close>

theorem constructor_composite_counterexample:
  "map_sum id (composite \<circ> state) (constructor sampleCanvas emptyOptions sampleHost)
     = Inr ''source-over''
   \<and> ''source-over'' \<noteq> ''normal''"
  by (simp add: constructor_eq start_state ensureSize_state initialState_def)
    (simp add: emptyOptions_def sampleHost_def)

section \<open>The registry: the claims\<close>

lemma list_all_update:
  "list_all P al \<Longrightarrow> P (k, v) \<Longrightarrow> list_all P (AList.update k v al)"
  by (induction al) auto

lemma list_all_delete:
  "list_all P al \<Longrightarrow> list_all P (AList.delete k al)"
  by (induction al) auto

lemma map_of_update_same: "map_of (AList.update k v al) k = Some v"
  by (simp add: update_conv')

lemma materialize_id [simp]: "blob_id (materialize cfg) = blob_id cfg"
  by (simp add: materialize_def)

lemma spread_id [simp]: "blob_id (spread prev cfg) = blob_id prev"
  by (simp add: spread_def)

lemma asBlobConfig_id [simp]: "blob_id (asBlobConfig j cfg) = j"
  by (simp add: asBlobConfig_def)

lemma keysCoherent_lookup:
  "keysCoherent fb \<Longrightarrow> map_of (blobs fb) i = Some b \<Longrightarrow> blob_id b = i"
proof -
  assume c: "keysCoherent fb" and m: "map_of (blobs fb) i = Some b"
  from m have "(i, b) \<in> set (blobs fb)"
    by (rule map_of_SomeD)
  with c show ?thesis
    unfolding keysCoherent_def list_all_iff by fastforce
qed

lemma addBlob_coherent: "keysCoherent fb \<Longrightarrow> keysCoherent (addBlob cfg fb)"
  by (simp add: keysCoherent_def addBlob_def Let_def list_all_update)

lemma updateBlob_coherent:
  assumes "keysCoherent fb"
  shows "keysCoherent (updateBlob i cfg fb)"
proof (cases "map_of (blobs fb) i")
  case None
  then show ?thesis
    using assms addBlob_coherent by (simp add: updateBlob_def split: option.splits)
next
  case (Some prev)
  with assms have "blob_id prev = i"
    by (rule keysCoherent_lookup)
  with Some assms show ?thesis
    by (simp add: updateBlob_def keysCoherent_def Let_def list_all_update)
qed

lemma removeBlob_coherent: "keysCoherent fb \<Longrightarrow> keysCoherent (removeBlob i fb)"
  by (simp add: keysCoherent_def removeBlob_def list_all_delete)

lemma destroy_blobs: "blobs (destroy fb) = []"
  by (simp add: destroy_def Let_def split: option.splits)

lemma onFrame_blobs: "blobs (fst (onFrame h fb)) = blobs fb"
  by (simp add: onFrame_def loop_fields split: list.splits)

lemma applyOp_coherent: "keysCoherent fb \<Longrightarrow> keysCoherent (applyOp op fb)"
proof (cases op)
  case (AddBlob cfg)
  then show "keysCoherent fb \<Longrightarrow> ?thesis" by (simp add: addBlob_coherent)
next
  case (UpdateBlob i cfg)
  then show "keysCoherent fb \<Longrightarrow> ?thesis" by (simp add: updateBlob_coherent)
next
  case (RemoveBlob i)
  then show "keysCoherent fb \<Longrightarrow> ?thesis" by (simp add: removeBlob_coherent)
next
  case (Start h)
  then show "keysCoherent fb \<Longrightarrow> ?thesis" by (simp add: keysCoherent_def start_fields)
next
  case Stop
  then show "keysCoherent fb \<Longrightarrow> ?thesis" by (simp add: keysCoherent_def stop_fields)
next
  case Destroy
  then show "keysCoherent fb \<Longrightarrow> ?thesis" by (simp add: keysCoherent_def destroy_blobs)
next
  case (Frame h)
  then show "keysCoherent fb \<Longrightarrow> ?thesis" by (simp add: keysCoherent_def onFrame_blobs)
qed (simp_all add: keysCoherent_def setAlpha_def setBlurPx_def setParallax_def setFpsCap_def
    setComposite_def setBackground_def)

lemma applyOps_coherent: "keysCoherent fb \<Longrightarrow> keysCoherent (applyOps ops fb)"
  by (induction ops arbitrary: fb) (simp_all add: applyOp_coherent)

lemma constructor_sample:
  "constructor sampleCanvas emptyOptions sampleHost
     = Inr (projr (constructor sampleCanvas emptyOptions sampleHost))"
  by (simp add: constructor_eq sampleHost_def)

text \<open>
  C9. After any sequence of operations on a constructed engine, and more generally from
  any state where it holds, every key of the registry is the identifier of the blob
  stored under it. In particular \<^verbatim>\<open>updateBlob\<close> on an identifier that is present
  keeps the identifier of the stored blob, whatever identifier the partial record
  carries.
\<close>

theorem registry_keys_coherent:
  "(keysCoherent fb \<longrightarrow> keysCoherent (applyOps ops fb))
   \<and> (constructor cv opts host = Inr fb \<longrightarrow> keysCoherent (applyOps ops fb))
   \<and> (map_of (blobs fb) i = Some prev \<longrightarrow>
        map_option blob_id (map_of (blobs (updateBlob i cfg fb)) i) = Some (blob_id prev))"
proof -
  have "keysCoherent fb" if "constructor cv opts host = Inr fb"
    using constructor_result(1) [OF that] by (simp add: keysCoherent_def)
  moreover have "map_option blob_id (map_of (blobs (updateBlob i cfg fb)) i) = Some (blob_id prev)"
    if "map_of (blobs fb) i = Some prev"
    using that by (simp add: updateBlob_def Let_def map_of_update_same)
  ultimately show ?thesis
    by (simp add: applyOps_coherent)
qed

theorem registry_keys_coherent_witness:
  "keysCoherent sampleEngine
   \<and> keysCoherent (applyOps [UpdateBlob ''b1'' samplePartial, AddBlob sampleBlob, RemoveBlob ''b1'']
        sampleEngine)
   \<and> constructor sampleCanvas emptyOptions sampleHost
        = Inr (projr (constructor sampleCanvas emptyOptions sampleHost))
   \<and> keysCoherent (applyOps [AddBlob sampleBlob, UpdateBlob ''b1'' samplePartial]
        (projr (constructor sampleCanvas emptyOptions sampleHost)))
   \<and> map_of (blobs sampleEngine) ''b1'' = Some (materialize sampleBlob)
   \<and> partial_id samplePartial = Some ''other''
   \<and> map_option blob_id (map_of (blobs (updateBlob ''b1'' samplePartial sampleEngine)) ''b1'')
        = Some ''b1''"
  using registry_keys_coherent [of sampleEngine
      "[UpdateBlob ''b1'' samplePartial, AddBlob sampleBlob, RemoveBlob ''b1'']"
      sampleCanvas emptyOptions sampleHost "''b1''" "materialize sampleBlob" samplePartial]
    registry_keys_coherent [of "projr (constructor sampleCanvas emptyOptions sampleHost)"
      "[AddBlob sampleBlob, UpdateBlob ''b1'' samplePartial]"
      sampleCanvas emptyOptions sampleHost "''b1''" "materialize sampleBlob" samplePartial]
    constructor_sample
  by (simp add: keysCoherent_def sampleEngine_def samplePartial_def sampleBlob_def)

text \<open>
  C5 (as amended). For every call of \<^verbatim>\<open>updateBlob\<close> with an identifier that is not
  in the registry: when the partial record carries an identifier that is not the empty
  string, the call is an add of that record, which is then stored under the record's
  own identifier; when it carries none, or the empty string, the call changes nothing,
  so the registry and its size stay as they were. No branch raises.
\<close>

theorem updateBlob_unknown_id:
  assumes "map_of (blobs fb) i = None"
  shows "(partial_id cfg = Some j \<and> j \<noteq> [] \<longrightarrow>
            updateBlob i cfg fb = addBlob (asBlobConfig j cfg) fb
            \<and> map_of (blobs (updateBlob i cfg fb)) j = Some (materialize (asBlobConfig j cfg)))
         \<and> (partial_id cfg = None \<or> partial_id cfg = Some [] \<longrightarrow>
            updateBlob i cfg fb = fb
            \<and> length (blobs (updateBlob i cfg fb)) = length (blobs fb))"
  using assms by (auto simp add: updateBlob_def addBlob_def Let_def map_of_update_same)

theorem updateBlob_unknown_id_witness:
  "map_of (blobs sampleEngine) ''nope'' = None
   \<and> partial_id samplePartial = Some ''other''
   \<and> updateBlob ''nope'' samplePartial sampleEngine
        = addBlob (asBlobConfig ''other'' samplePartial) sampleEngine
   \<and> map_of (blobs (updateBlob ''nope'' samplePartial sampleEngine)) ''other''
        = Some (materialize (asBlobConfig ''other'' samplePartial))
   \<and> length (blobs (updateBlob ''nope'' samplePartial sampleEngine)) = 2
   \<and> partial_id (samplePartial\<lparr>partial_id := None\<rparr>) = None
   \<and> updateBlob ''nope'' (samplePartial\<lparr>partial_id := None\<rparr>) sampleEngine = sampleEngine
   \<and> length (blobs (updateBlob ''nope'' (samplePartial\<lparr>partial_id := None\<rparr>) sampleEngine)) = 1
   \<and> updateBlob ''nope'' (samplePartial\<lparr>partial_id := Some []\<rparr>) sampleEngine = sampleEngine"
  using updateBlob_unknown_id [of sampleEngine "''nope''" samplePartial "''other''"]
    updateBlob_unknown_id [of sampleEngine "''nope''" "samplePartial\<lparr>partial_id := None\<rparr>" "''other''"]
    updateBlob_unknown_id [of sampleEngine "''nope''" "samplePartial\<lparr>partial_id := Some []\<rparr>" "''other''"]
  by (simp add: sampleEngine_def samplePartial_def addBlob_def Let_def)

text \<open>A partial record that carries the empty string as its identifier is not added,
  although adding it would store a blob under that key.\<close>

theorem updateBlob_empty_id_counterexample:
  "map_of (blobs sampleEngine) ''nope'' = None
   \<and> partial_id (samplePartial\<lparr>partial_id := Some []\<rparr>) = Some []
   \<and> updateBlob ''nope'' (samplePartial\<lparr>partial_id := Some []\<rparr>) sampleEngine = sampleEngine
   \<and> addBlob (asBlobConfig [] (samplePartial\<lparr>partial_id := Some []\<rparr>)) sampleEngine \<noteq> sampleEngine"
proof -
  have "length (blobs (addBlob (asBlobConfig [] (samplePartial\<lparr>partial_id := Some []\<rparr>)) sampleEngine))
      \<noteq> length (blobs sampleEngine)"
    by (simp add: addBlob_def Let_def sampleEngine_def)
  then have "addBlob (asBlobConfig [] (samplePartial\<lparr>partial_id := Some []\<rparr>)) sampleEngine \<noteq> sampleEngine"
    by metis
  then show ?thesis
    by (simp add: updateBlob_def) (simp add: sampleEngine_def)
qed

section \<open>The setters: the claim\<close>

text \<open>The 32-bit truncation stays in the signed 32-bit range, and within that range it
  is truncation toward zero.\<close>

lemma toInt32_range: "- (2 ^ 31) \<le> toInt32 v \<and> toInt32 v < 2 ^ 31"
proof (cases v)
  case (Fin x)
  define n where "n = (if 0 \<le> x then \<lfloor>x\<rfloor> else \<lceil>x\<rceil>)"
  have "0 \<le> n mod 2 ^ 32" "n mod 2 ^ 32 < 2 ^ 32"
    by simp_all
  then show ?thesis
    unfolding toInt32_def Fin jsnum.case n_def [symmetric] Let_def by auto
qed (simp_all add: toInt32_def)

lemma toInt32_small:
  assumes "- (2 ^ 31) \<le> x" "x < 2 ^ 31"
  shows "toInt32 (Fin x) = (if 0 \<le> x then \<lfloor>x\<rfloor> else \<lceil>x\<rceil>)"
proof -
  define n where "n = (if 0 \<le> x then \<lfloor>x\<rfloor> else \<lceil>x\<rceil>)"
  have lo: "- (2 ^ 31) \<le> n"
    using assms(1) unfolding n_def by (auto simp add: le_floor_iff le_ceiling_iff)
  have hi: "n < 2 ^ 31"
    using assms(2) unfolding n_def by (auto simp add: floor_less_iff ceiling_less_iff)
  show ?thesis
  proof (cases "0 \<le> n")
    case True
    with hi have "n mod 2 ^ 32 = n"
      by simp
    with hi show ?thesis
      unfolding toInt32_def jsnum.case n_def [symmetric] Let_def by simp
  next
    case False
    have "(n + 2 ^ 32) mod 2 ^ 32 = n + 2 ^ 32"
      using lo False by (intro mod_pos_pos_trivial) auto
    moreover have "(n + 2 ^ 32) mod 2 ^ 32 = n mod 2 ^ 32"
      by simp
    ultimately have "n mod 2 ^ 32 = n + 2 ^ 32"
      by simp
    with lo False show ?thesis
      unfolding toInt32_def jsnum.case n_def [symmetric] Let_def by simp
  qed
qed

lemma nonNegInt_max0: "nonNegInt (max 0 (real_of_int k))"
  by (simp add: nonNegInt_def max_def)

text \<open>The clamp of every number but NaN is in the unit interval; the clamp of NaN is
  NaN.\<close>

lemma clamp_unit: "unitInterval (clamp a 0 1) = (a \<noteq> NaN)"
  by (cases a) (simp_all add: clamp_def jmax_def jmin_def unitInterval_def)

lemma clamp_Fin: "clamp (Fin x) 0 1 = Fin (min 1 (max 0 x))"
  by (simp add: clamp_def jmax_def jmin_def)

lemma destroy_state: "state (destroy fb) = (state fb)\<lparr>running := False\<rparr>"
  by (simp add: destroy_def Let_def stop_fields split: option.splits)

lemma onFrame_state:
  "alpha (state (fst (onFrame h fb))) = alpha (state fb)"
  "blurPx (state (fst (onFrame h fb))) = blurPx (state fb)"
  "fpsCap (state (fst (onFrame h fb))) = fpsCap (state fb)"
  by (simp_all add: onFrame_def loop_state split: list.splits)

lemma applyOp_alpha:
  "alpha (state (applyOp op fb)) = (case op of SetAlpha a \<Rightarrow> clamp a 0 1 | _ \<Rightarrow> alpha (state fb))"
  by (cases op)
    (simp_all add: setAlpha_def setBlurPx_def setParallax_def setFpsCap_def setComposite_def
      setBackground_def addBlob_def Let_def updateBlob_def removeBlob_def start_state stop_fields
      destroy_state onFrame_state split: option.splits)

lemma applyOp_blurPx:
  "blurPx (state (applyOp op fb)) =
     (case op of SetBlurPx px \<Rightarrow> max 0 (real_of_int (toInt32 px)) | _ \<Rightarrow> blurPx (state fb))"
  by (cases op)
    (simp_all add: setAlpha_def setBlurPx_def setParallax_def setFpsCap_def setComposite_def
      setBackground_def addBlob_def Let_def updateBlob_def removeBlob_def start_state stop_fields
      destroy_state onFrame_state split: option.splits)

lemma applyOp_fpsCap:
  "fpsCap (state (applyOp op fb)) =
     (case op of SetFpsCap fps \<Rightarrow> max 0 (real_of_int (toInt32 fps)) | _ \<Rightarrow> fpsCap (state fb))"
  by (cases op)
    (simp_all add: setAlpha_def setBlurPx_def setParallax_def setFpsCap_def setComposite_def
      setBackground_def addBlob_def Let_def updateBlob_def removeBlob_def start_state stop_fields
      destroy_state onFrame_state split: option.splits)

lemma applyOps_alpha:
  "unitInterval (alpha (state fb)) \<Longrightarrow> SetAlpha NaN \<notin> set ops
   \<Longrightarrow> unitInterval (alpha (state (applyOps ops fb)))"
proof (induction ops arbitrary: fb)
  case Nil
  then show ?case by simp
next
  case (Cons op ops)
  have "unitInterval (alpha (state (applyOp op fb)))"
    using Cons.prems by (auto simp add: applyOp_alpha clamp_unit split: Op.splits)
  with Cons.prems(2) show ?case
    by (simp add: Cons.IH)
qed

lemma applyOps_blurPx:
  "nonNegInt (blurPx (state fb)) \<Longrightarrow> nonNegInt (blurPx (state (applyOps ops fb)))"
proof (induction ops arbitrary: fb)
  case Nil
  then show ?case by simp
next
  case (Cons op ops)
  have "nonNegInt (blurPx (state (applyOp op fb)))"
    using Cons.prems by (simp add: applyOp_blurPx nonNegInt_max0 split: Op.splits)
  then show ?case
    by (simp add: Cons.IH)
qed

lemma applyOps_fpsCap:
  "nonNegInt (fpsCap (state fb)) \<Longrightarrow> nonNegInt (fpsCap (state (applyOps ops fb)))"
proof (induction ops arbitrary: fb)
  case Nil
  then show ?case by simp
next
  case (Cons op ops)
  have "nonNegInt (fpsCap (state (applyOp op fb)))"
    using Cons.prems by (simp add: applyOp_fpsCap nonNegInt_max0 split: Op.splits)
  then show ?case
    by (simp add: Cons.IH)
qed

text \<open>What the setters store. \<^verbatim>\<open>setBlurPx\<close> and \<^verbatim>\<open>setFpsCap\<close> store a nonnegative
  integer for every input, NaN and the infinities included, and every sequence of
  operations keeps the two fields such integers. \<^verbatim>\<open>setAlpha\<close> stores a number of the
  unit interval for every input but NaN, and a sequence of operations that never sets
  the alpha to NaN keeps it in the unit interval.\<close>

lemma setters_store:
  "alpha (state (setAlpha a fb)) = clamp a 0 1
   \<and> (a \<noteq> NaN \<longrightarrow> unitInterval (clamp a 0 1))
   \<and> blurPx (state (setBlurPx px fb)) = max 0 (real_of_int (toInt32 px))
   \<and> nonNegInt (max 0 (real_of_int (toInt32 px)))
   \<and> fpsCap (state (setFpsCap fps fb)) = max 0 (real_of_int (toInt32 fps))
   \<and> (unitInterval (alpha (state fb)) \<and> SetAlpha NaN \<notin> set ops
        \<longrightarrow> unitInterval (alpha (state (applyOps ops fb))))
   \<and> (nonNegInt (blurPx (state fb)) \<longrightarrow> nonNegInt (blurPx (state (applyOps ops fb))))
   \<and> (nonNegInt (fpsCap (state fb)) \<longrightarrow> nonNegInt (fpsCap (state (applyOps ops fb))))"
  by (simp add: setAlpha_def setBlurPx_def setFpsCap_def clamp_unit nonNegInt_max0
      applyOps_alpha applyOps_blurPx applyOps_fpsCap)

lemma setters_examples:
  "alpha (state (setAlpha (Fin 7) sampleEngine)) = Fin 1
   \<and> alpha (state (setAlpha PosInf sampleEngine)) = Fin 1
   \<and> alpha (state (setAlpha (Fin (- 2)) sampleEngine)) = Fin 0
   \<and> blurPx (state (setBlurPx (Fin (- 3.7)) sampleEngine)) = 0
   \<and> blurPx (state (setBlurPx (Fin 12.9) sampleEngine)) = 12
   \<and> blurPx (state (setBlurPx PosInf sampleEngine)) = 0
   \<and> fpsCap (state (setFpsCap (Fin 4294967326.5) sampleEngine)) = 30"
  by (simp add: setAlpha_def setBlurPx_def setFpsCap_def sampleEngine_def clamp_def jmax_def
      jmin_def toInt32_def)

text \<open>
  C10. The claim fails in the code. \<^verbatim>\<open>setBlurPx\<close> and \<^verbatim>\<open>setFpsCap\<close> coerce every
  input, NaN too, to a nonnegative integer: both store 0 for NaN. \<^verbatim>\<open>setAlpha\<close> does
  not: the clamp is \<^verbatim>\<open>Math.min(1, Math.max(0, a))\<close>, which is NaN for NaN, so after
  \<^verbatim>\<open>setAlpha(NaN)\<close> the stored alpha is NaN and not a number of the unit interval.
\<close>

theorem setAlpha_stores_NaN:
  "alpha (state (setAlpha NaN fb)) = NaN
   \<and> \<not> unitInterval (alpha (state (setAlpha NaN fb)))
   \<and> \<not> unitInterval (alpha (state (applyOps [SetAlpha NaN, SetBlurPx NaN, SetFpsCap NaN] fb)))
   \<and> blurPx (state (setBlurPx NaN fb)) = 0
   \<and> fpsCap (state (setFpsCap NaN fb)) = 0"
  by (simp add: setAlpha_def setBlurPx_def setFpsCap_def clamp_def jmax_def jmin_def
      unitInterval_def toInt32_def)

text \<open>With the alpha NaN every colour stop of a layer is \<^verbatim>\<open>rgba(r,g,b,NaN)\<close>, which
  the host refuses: the frame ends in an exception at the first layer it paints.\<close>

lemma paintLayer_NaN_alpha:
  "snd (paintLayer (state (setAlpha NaN fb)) b m (Fin x) (Fin y) (Fin \<bar>r\<bar>) L cc) = Some SyntaxError"
  by (simp add: paintLayer_def setAlpha_def clamp_def jmax_def jmin_def jmul_def)

text \<open>The constructor stores its options as they come, without the coercion of the
  setters: constructed with alpha 5, the engine keeps alpha 5 through operations that do
  not set it.\<close>

lemma constructor_uncoerced:
  "map_sum id (alpha \<circ> state \<circ> applyOps [SetBlurPx (Fin 3), SetFpsCap (Fin 30)])
     (constructor sampleCanvas (emptyOptions\<lparr>opt_alpha := Some (Fin 5)\<rparr>) sampleHost) = Inr (Fin 5)
   \<and> \<not> unitInterval (Fin 5)"
  by (simp add: constructor_eq setBlurPx_def setFpsCap_def start_state ensureSize_state
      unitInterval_def initialState_def emptyOptions_def sampleHost_def)

section \<open>Destruction: the claim\<close>

lemma restore_save: "restore (setTransform a b c d e f (save cx)) = cx"
  by (simp add: restore_def setTransform_def save_def drawState_def)

lemma setTransform_transform:
  "ctx_transform (setTransform a b c d e f cx) = (a, b, c, d, e, f)"
  by (simp add: setTransform_def)

lemma destroy_eq:
  "destroy fb =
     (case ctx fb of
        None \<Rightarrow> (stop fb)\<lparr>blobs := []\<rparr>
      | Some c \<Rightarrow> (stop fb)\<lparr>canvas := (canvas fb)\<lparr>bitmap := []\<rparr>, ctx := Some c, blobs := []\<rparr>)"
  by (simp add: destroy_def Let_def stop_fields restore_save clearRect_def setTransform_transform
      identityTransform_def split: option.splits)

lemma destroy_fields:
  "rafId (destroy fb) = 0"
  "rendered (destroy fb) = rendered fb"
  "hasCtx (destroy fb) = hasCtx fb"
  by (simp_all add: destroy_eq stop_fields hasCtx_def split: option.splits)

lemma destroy_blank: "hasCtx fb \<Longrightarrow> blank (canvas (destroy fb))"
  by (simp add: destroy_eq hasCtx_def blank_def split: option.splits)

lemma destroy_idem: "destroy (destroy fb) = destroy fb"
proof (cases "ctx fb")
  case None
  then show ?thesis
    by (simp add: destroy_eq stop_fields) (simp add: stop_def Let_def)
next
  case (Some c)
  then show ?thesis
    by (simp add: destroy_eq stop_fields) (simp add: stop_def Let_def)
qed

lemma onFrame_hasCtx: "hasCtx (fst (onFrame h fb)) = hasCtx fb"
  by (simp add: onFrame_def loop_fields split: list.splits)

lemma applyOp_hasCtx: "hasCtx (applyOp op fb) = hasCtx fb"
  by (cases op)
    (simp_all add: setAlpha_def setBlurPx_def setParallax_def setFpsCap_def setComposite_def
      setBackground_def addBlob_def Let_def updateBlob_def removeBlob_def start_fields stop_fields
      destroy_fields onFrame_hasCtx split: option.splits)

lemma applyOps_hasCtx: "hasCtx (applyOps ops fb) = hasCtx fb"
  by (induction ops arbitrary: fb) (simp_all add: applyOp_hasCtx)

lemma restore_alpha: "ctx_alpha (restore c) = ctx_alpha c"
  by (simp add: restore_def split: list.splits)

lemma paintLayer_alpha:
  "ctx_alpha (fst (fst (paintLayer s b om cx cy r L cc))) = ctx_alpha (fst cc)"
  by (simp add: paintLayer_def Let_def arc_def beginPath_def split: jsnum.splits)

lemma paintLayers_alpha:
  "ctx_alpha (fst (fst (paintLayers s b om cx cy r Ls cc))) = ctx_alpha (fst cc)"
proof (induction Ls arbitrary: cc)
  case Nil
  then show ?case by simp
next
  case (Cons L Ls)
  show ?case
  proof (cases "paintLayer s b om cx cy r L cc")
    case (Pair cc' e)
    with paintLayer_alpha [of s b om cx cy r L cc] have "ctx_alpha (fst cc') = ctx_alpha (fst cc)"
      by simp
    with Pair Cons.IH [of cc'] show ?thesis
      by (cases e) simp_all
  qed
qed

lemma renderBlob_alpha:
  "ctx_alpha (fst (fst (renderBlob s t b cc))) = ctx_alpha (fst cc)"
  by (simp add: renderBlob_def Let_def paintLayers_alpha split: option.splits)

lemma renderBlobs_alpha:
  "ctx_alpha (fst (fst (renderBlobs s t bs cc))) = ctx_alpha (fst cc)"
proof (induction bs arbitrary: cc)
  case Nil
  then show ?case by simp
next
  case (Cons b bs)
  show ?case
  proof (cases "renderBlob s t b cc")
    case (Pair cc' e)
    with renderBlob_alpha [of s t b cc] have "ctx_alpha (fst cc') = ctx_alpha (fst cc)"
      by simp
    with Pair Cons.IH [of cc'] show ?thesis
      by (cases e) simp_all
  qed
qed

lemma paintBackground_alpha: "ctx_alpha (fst (paintBackground s cc)) = ctx_alpha (fst cc)"
  by (simp add: paintBackground_def Let_def restore_alpha setTransform_def save_def)

lemma enterCssSpace_alpha: "ctx_alpha (enterCssSpace s c) = ctx_alpha c"
  by (simp add: enterCssSpace_def Let_def scale_def save_def split: prod.splits)

lemma render_ctxAlpha:
  "map_option ctx_alpha (ctx (fst (render t fb))) = map_option ctx_alpha (ctx fb)"
  by (simp add: render_def Let_def renderBlobs_alpha enterCssSpace_alpha paintBackground_alpha
      restore_alpha split: option.splits)

lemma ensureSize_ctxAlpha:
  "map_option ctx_alpha (ctx (ensureSize h fb)) = map_option ctx_alpha (ctx fb)"
  by (cases "ctx fb") (simp_all add: ensureSize_def Let_def newCtx_def)

lemma loop_ctxAlpha:
  "map_option ctx_alpha (ctx (fst (loop h fb))) = map_option ctx_alpha (ctx fb)"
  by (simp add: loop_def Let_def render_ctxAlpha ensureSize_ctxAlpha)

lemma start_ctxAlpha:
  "map_option ctx_alpha (ctx (fst (start h fb))) = map_option ctx_alpha (ctx fb)"
  by (simp add: start_def loop_ctxAlpha)

lemma onFrame_ctxAlpha:
  "map_option ctx_alpha (ctx (fst (onFrame h fb))) = map_option ctx_alpha (ctx fb)"
  by (simp add: onFrame_def loop_ctxAlpha split: list.splits)

lemma destroy_ctxAlpha:
  "map_option ctx_alpha (ctx (destroy fb)) = map_option ctx_alpha (ctx fb)"
  by (simp add: destroy_eq stop_fields split: option.splits)

lemma applyOp_ctxAlpha:
  "map_option ctx_alpha (ctx (applyOp op fb)) = map_option ctx_alpha (ctx fb)"
  by (cases op)
    (simp_all add: setAlpha_def setBlurPx_def setParallax_def setFpsCap_def setComposite_def
      setBackground_def addBlob_def Let_def updateBlob_def removeBlob_def start_ctxAlpha
      stop_fields destroy_ctxAlpha onFrame_ctxAlpha split: option.splits)

lemma applyOps_ctxAlpha:
  "map_option ctx_alpha (ctx (applyOps ops fb)) = map_option ctx_alpha (ctx fb)"
  by (induction ops arbitrary: fb) (simp_all add: applyOp_ctxAlpha)

lemma constructor_ctxAlpha:
  assumes "constructor cv opts host = Inr fb"
  shows "map_option ctx_alpha (ctx fb) = Some (\<not> truthy (opt_background opts))"
proof -
  define X where "X = \<lparr>canvas = cv,
      ctx = Some (newCtx (\<not> truthy (opt_background opts)) (opt_desynchronized opts = Some True)),
      rafId = 0, blobs = [],
      state = initialState opts host (opt_desynchronized opts = Some True),
      pending = [], rendered = []\<rparr>"
  from assms have fb: "fb = (if opt_autoStart opts \<noteq> Some False
      then fst (start host (ensureSize host X)) else ensureSize host X)"
    unfolding constructor_eq X_def by (simp split: if_splits)
  have e: "map_option ctx_alpha (ctx fb) = map_option ctx_alpha (ctx X)"
  proof (cases "opt_autoStart opts \<noteq> Some False")
    case True
    with fb have "fb = fst (start host (ensureSize host X))"
      by simp
    then show ?thesis
      by (simp only: start_ctxAlpha ensureSize_ctxAlpha)
  next
    case False
    with fb have "fb = ensureSize host X"
      by simp
    then show ?thesis
      by (simp only: ensureSize_ctxAlpha)
  qed
  show ?thesis
    unfolding e by (simp add: X_def newCtx_def)
qed

lemma readsTransparent_destroy:
  "readsTransparent (destroy fb) = (case ctx fb of None \<Rightarrow> blank (canvas fb) | Some c \<Rightarrow> ctx_alpha c)"
  by (simp add: readsTransparent_def destroy_eq stop_fields blank_def split: option.splits)

text \<open>
  C8 (as amended). \<^verbatim>\<open>destroy\<close> has no failing branch and can be called in any
  state. After it the registry is empty, the engine is stopped with no callback handle,
  and, for an object that holds its context (every constructed one, after any
  operations), the backing store has been wiped by a \<^verbatim>\<open>clearRect\<close> over its whole
  extent under the identity transform: no paint is left, whatever background is
  configured. A second \<^verbatim>\<open>destroy\<close> changes nothing. The wiped surface reads as fully
  transparent exactly when the engine was constructed without a background colour in
  its options, for only then has its context an alpha channel.
\<close>

theorem destroy_clears:
  "blobs (destroy fb) = [] \<and> \<not> running (state (destroy fb)) \<and> rafId (destroy fb) = 0
   \<and> (hasCtx fb \<longrightarrow> blank (canvas (destroy fb)))
   \<and> destroy (destroy fb) = destroy fb
   \<and> (constructor cv opts host = Inr fb \<longrightarrow>
        blank (canvas (destroy (applyOps ops fb)))
        \<and> readsTransparent (destroy (applyOps ops fb)) = (\<not> truthy (opt_background opts)))"
proof -
  have "blank (canvas (destroy (applyOps ops fb)))" if "constructor cv opts host = Inr fb"
    using constructor_result(2) [OF that] by (simp add: destroy_blank applyOps_hasCtx)
  moreover have "readsTransparent (destroy (applyOps ops fb)) = (\<not> truthy (opt_background opts))"
    if "constructor cv opts host = Inr fb"
  proof -
    have "map_option ctx_alpha (ctx (applyOps ops fb)) = Some (\<not> truthy (opt_background opts))"
      using constructor_ctxAlpha [OF that] by (simp add: applyOps_ctxAlpha)
    then show ?thesis
      by (cases "ctx (applyOps ops fb)") (simp_all add: readsTransparent_destroy)
  qed
  ultimately show ?thesis
    by (simp add: destroy_blobs destroy_state destroy_fields destroy_blank destroy_idem)
qed

theorem destroy_clears_witness:
  "hasCtx sampleEngine \<and> truthy (background (state sampleEngine))
   \<and> \<not> blank (canvas sampleEngine) \<and> blobs sampleEngine \<noteq> []
   \<and> blank (canvas (destroy sampleEngine)) \<and> blobs (destroy sampleEngine) = []
   \<and> destroy (destroy sampleEngine) = destroy sampleEngine
   \<and> constructor sampleCanvas emptyOptions sampleHost
        = Inr (projr (constructor sampleCanvas emptyOptions sampleHost))
   \<and> blank (canvas (destroy (applyOps [AddBlob sampleBlob, SetBackground (Some ''#102030''),
        Frame sampleHost] (projr (constructor sampleCanvas emptyOptions sampleHost)))))
   \<and> readsTransparent (destroy (applyOps [AddBlob sampleBlob, SetBackground (Some ''#102030''),
        Frame sampleHost] (projr (constructor sampleCanvas emptyOptions sampleHost))))"
proof -
  have a: "hasCtx sampleEngine" "truthy (background (state sampleEngine))"
    "\<not> blank (canvas sampleEngine)" "blobs sampleEngine \<noteq> []"
    by (simp_all add: sampleEngine_def hasCtx_def truthy_def blank_def)
  have t: "\<not> truthy (opt_background emptyOptions)"
    by (simp add: emptyOptions_def truthy_def)
  show ?thesis
    using destroy_clears [of sampleEngine sampleCanvas emptyOptions sampleHost "[]"]
      destroy_clears [of "projr (constructor sampleCanvas emptyOptions sampleHost)"
        sampleCanvas emptyOptions sampleHost
        "[AddBlob sampleBlob, SetBackground (Some ''#102030''), Frame sampleHost]"]
      a t constructor_sample
    by simp
qed

text \<open>An engine constructed with a background colour asks for a context with
  \<^verbatim>\<open>alpha: false\<close>; its surface is wiped by \<^verbatim>\<open>destroy\<close> and does not read as
  transparent.\<close>

theorem destroy_opaque_counterexample:
  "map_sum id (readsTransparent \<circ> destroy)
     (constructor sampleCanvas (emptyOptions\<lparr>opt_background := Some ''#102030''\<rparr>) sampleHost)
   = Inr False"
proof -
  define fb where "fb = projr (constructor sampleCanvas
      (emptyOptions\<lparr>opt_background := Some ''#102030''\<rparr>) sampleHost)"
  have c: "constructor sampleCanvas (emptyOptions\<lparr>opt_background := Some ''#102030''\<rparr>) sampleHost
      = Inr fb"
    unfolding fb_def by (simp add: constructor_eq sampleHost_def)
  have "map_option ctx_alpha (ctx fb) = Some False"
    using constructor_ctxAlpha [OF c] by (simp add: truthy_def)
  then have "\<not> readsTransparent (destroy fb)"
    by (cases "ctx fb") (simp_all add: readsTransparent_destroy)
  then show ?thesis
    by (simp add: c)
qed

section \<open>Frame-rate ceiling: the claim\<close>

text \<open>What one pass through \<^verbatim>\<open>loop\<close> does to the log and to the time of the last
  accepted frame: nothing, or it accepts the frame, and then the frame is not too early
  after the last accepted one.\<close>

lemma loop_outcome:
  "(rendered (fst (loop h fb)) = rendered fb
      \<and> lastFrameMs (state (fst (loop h fb))) = lastFrameMs (state fb))
   \<or> (rendered (fst (loop h fb)) = rendered fb @ [host_now h]
      \<and> lastFrameMs (state (fst (loop h fb))) = host_now h
      \<and> (0 < fpsCap (state fb) \<and> lastFrameMs (state fb) \<noteq> 0
           \<longrightarrow> 1000 / fpsCap (state fb) \<le> host_now h - lastFrameMs (state fb)))"
proof (cases "running (state fb)
    \<and> \<not> (0 < fpsCap (state fb)
          \<and> (if lastFrameMs (state fb) \<noteq> 0 then host_now h - lastFrameMs (state fb) else 16.7)
              < 1000 / fpsCap (state fb))")
  case False
  have "rendered (fst (loop h fb)) = rendered fb"
    unfolding loop_rendered by (rule if_not_P) (rule False)
  moreover have "lastFrameMs (state (fst (loop h fb))) = lastFrameMs (state fb)"
    unfolding loop_lastFrameMs by (rule if_not_P) (rule False)
  ultimately show ?thesis
    by simp
next
  case True
  have r: "rendered (fst (loop h fb)) = rendered fb @ [host_now h]"
    unfolding loop_rendered by (rule if_P) (rule True)
  have l: "lastFrameMs (state (fst (loop h fb))) = host_now h"
    unfolding loop_lastFrameMs by (rule if_P) (rule True)
  from True have "0 < fpsCap (state fb) \<and> lastFrameMs (state fb) \<noteq> 0
      \<longrightarrow> 1000 / fpsCap (state fb) \<le> host_now h - lastFrameMs (state fb)"
    by auto
  with r l show ?thesis
    by simp
qed

lemma onFrame_pending:
  assumes "pending fb = p # ps"
  shows "onFrame h fb = loop h (fb\<lparr>pending := ps\<rparr>)"
  using assms by (simp add: onFrame_def)

lemma onFrame_outcome:
  "(rendered (fst (onFrame h fb)) = rendered fb
      \<and> lastFrameMs (state (fst (onFrame h fb))) = lastFrameMs (state fb))
   \<or> (rendered (fst (onFrame h fb)) = rendered fb @ [host_now h]
      \<and> lastFrameMs (state (fst (onFrame h fb))) = host_now h
      \<and> (0 < fpsCap (state fb) \<and> lastFrameMs (state fb) \<noteq> 0
           \<longrightarrow> 1000 / fpsCap (state fb) \<le> host_now h - lastFrameMs (state fb)))"
proof (cases "pending fb")
  case Nil
  then show ?thesis
    by (simp add: onFrame_def)
next
  case (Cons p ps)
  from loop_outcome [of h "fb\<lparr>pending := ps\<rparr>"] show ?thesis
    unfolding onFrame_pending [OF Cons] by simp
qed

lemma start_outcome:
  assumes "\<not> running (state fb)"
  shows "(rendered (fst (start h fb)) = rendered fb \<and> lastFrameMs (state (fst (start h fb))) = 0)
   \<or> (rendered (fst (start h fb)) = rendered fb @ [host_now h]
      \<and> lastFrameMs (state (fst (start h fb))) = host_now h)"
  using assms loop_outcome [of h "fb\<lparr>state := (state fb)\<lparr>running := True, lastFrameMs := 0\<rparr>\<rparr>"]
  by (auto simp add: start_def)

text \<open>The operations other than \<^verbatim>\<open>start\<close> and the frame callback touch neither the log
  nor the time of the last accepted frame.\<close>

lemma applyOp_log:
  assumes "\<And>h. op \<noteq> Frame h" and "\<And>h. op \<noteq> Start h"
  shows "rendered (applyOp op fb) = rendered fb"
    and "lastFrameMs (state (applyOp op fb)) = lastFrameMs (state fb)"
  using assms
  by (cases op;
      simp add: setAlpha_def setBlurPx_def setParallax_def setFpsCap_def setComposite_def
        setBackground_def addBlob_def Let_def updateBlob_def removeBlob_def stop_fields
        destroy_state destroy_fields split: option.splits)+

text \<open>The four things an operation can do to the run.\<close>

lemma step_cases:
  assumes "clockNonzero op"
  shows "(events op fb = [] \<and> lastAccepted (applyOp op fb) = lastAccepted fb)
   \<or> (\<exists>t. events op fb = [Accepted t (fpsCap (state fb))]
          \<and> lastAccepted (applyOp op fb) = Some t
          \<and> (\<forall>p. lastAccepted fb = Some p \<and> 0 < fpsCap (state fb)
                \<longrightarrow> 1000 / fpsCap (state fb) \<le> t - p))
   \<or> (events op fb = [Restarted] \<and> lastAccepted (applyOp op fb) = None)
   \<or> (\<exists>t. events op fb = [Restarted, Accepted t (fpsCap (state fb))]
          \<and> lastAccepted (applyOp op fb) = Some t)"
proof (cases "(\<exists>h. op = Frame h) \<or> (\<exists>h. op = Start h)")
  case False
  then have "\<And>h. op \<noteq> Frame h" and "\<And>h. op \<noteq> Start h"
    by simp_all
  from applyOp_log [OF this, of fb] False show ?thesis
    by (cases op) (simp_all add: events_def lastAccepted_def)
next
  case True
  then show ?thesis
  proof
    assume "\<exists>h. op = Frame h"
    then obtain h where h: "op = Frame h" ..
    with assms have n: "host_now h \<noteq> 0"
      by (simp add: clockNonzero_def)
    from onFrame_outcome [of h fb] n show ?thesis
      by (auto simp add: h events_def lastAccepted_def)
  next
    assume "\<exists>h. op = Start h"
    then obtain h where h: "op = Start h" ..
    with assms have n: "host_now h \<noteq> 0"
      by (simp add: clockNonzero_def)
    show ?thesis
    proof (cases "running (state fb)")
      case True
      then show ?thesis
        by (simp add: h events_def start_def)
    next
      case False
      from start_outcome [OF False, of h] n False show ?thesis
        by (auto simp add: h events_def lastAccepted_def)
    qed
  qed
qed

lemma trace_gaps:
  "list_all clockNonzero ops \<Longrightarrow> cappedGaps (lastAccepted fb) (trace ops fb)"
proof (induction ops arbitrary: fb)
  case Nil
  then show ?case by simp
next
  case (Cons op ops)
  then have c: "clockNonzero op" and ih: "cappedGaps (lastAccepted (applyOp op fb)) (trace ops (applyOp op fb))"
    by simp_all
  from step_cases [OF c, of fb] ih show ?case
    by (auto split: option.splits)
qed

lemma applyOp_positiveCap:
  "positiveCap op \<Longrightarrow> 0 < fpsCap (state fb) \<Longrightarrow> 0 < fpsCap (state (applyOp op fb))"
  by (simp add: applyOp_fpsCap positiveCap_def split: Op.splits)

lemma trace_pairs:
  "list_all clockNonzero ops \<Longrightarrow> list_all positiveCap ops \<Longrightarrow> 0 < fpsCap (state fb) \<Longrightarrow>
   (case lastAccepted fb of None \<Rightarrow> bs = [] | Some p \<Rightarrow> list_all (\<lambda>a. a \<le> p) bs) \<Longrightarrow>
   cappedPairs bs (trace ops fb)"
proof (induction ops arbitrary: fb bs)
  case Nil
  then show ?case by simp
next
  case (Cons op ops)
  from Cons.prems have c: "clockNonzero op" "list_all clockNonzero ops"
    and p: "positiveCap op" "list_all positiveCap ops"
    by simp_all
  define F where "F = fpsCap (state fb)"
  have F: "0 < F"
    using Cons.prems(3) by (simp add: F_def)
  have f: "0 < fpsCap (state (applyOp op fb))"
    using p(1) Cons.prems(3) by (rule applyOp_positiveCap)
  note ih = Cons.IH [OF c(2) p(2) f]
  from step_cases [OF c(1), of fb]
  consider
    (same) "events op fb = []" "lastAccepted (applyOp op fb) = lastAccepted fb"
  | (acc) t where "events op fb = [Accepted t F]" "lastAccepted (applyOp op fb) = Some t"
      "\<forall>p. lastAccepted fb = Some p \<longrightarrow> 1000 / F \<le> t - p"
  | (res) "events op fb = [Restarted]" "lastAccepted (applyOp op fb) = None"
  | (both) t where "events op fb = [Restarted, Accepted t F]" "lastAccepted (applyOp op fb) = Some t"
    using F unfolding F_def by (elim disjE exE conjE) simp_all
  then show ?case
  proof cases
    case same
    have "cappedPairs bs (trace ops (applyOp op fb))"
      using Cons.prems(4) by (intro ih) (simp add: same(2))
    with same(1) show ?thesis
      by simp
  next
    case acc
    have g: "0 < 1000 / F"
      using F by simp
    have early: "list_all (\<lambda>a. 1000 / F \<le> t - a) bs"
    proof (cases "lastAccepted fb")
      case None
      with Cons.prems(4) show ?thesis by simp
    next
      case (Some q)
      with acc(3) have "1000 / F \<le> t - q"
        by simp
      moreover from Some Cons.prems(4) have "list_all (\<lambda>a. a \<le> q) bs"
        by simp
      ultimately show ?thesis
        by (auto simp add: list_all_iff)
    qed
    have "a \<le> t" if "a \<in> set bs" for a
    proof -
      from early that have "1000 / F \<le> t - a"
        by (simp add: list_all_iff)
      with g show ?thesis
        by linarith
    qed
    then have "list_all (\<lambda>a. a \<le> t) (bs @ [t])"
      by (simp add: list_all_iff)
    then have "cappedPairs (bs @ [t]) (trace ops (applyOp op fb))"
      by (intro ih) (simp add: acc(2))
    with early acc(1) show ?thesis
      by simp
  next
    case res
    have "cappedPairs [] (trace ops (applyOp op fb))"
      by (intro ih) (simp add: res(2))
    with res(1) show ?thesis
      by simp
  next
    case both
    have "cappedPairs ([] @ [t]) (trace ops (applyOp op fb))"
      by (intro ih) (simp add: both(2))
    with both(1) show ?thesis
      by simp
  qed
qed

text \<open>The accepted frames of the events are the frames the operations add to the log.\<close>

lemma applyOp_rendered:
  "rendered (applyOp op fb) = rendered fb @ acceptedTimes (events op fb)"
proof (cases "(\<exists>h. op = Frame h) \<or> (\<exists>h. op = Start h)")
  case False
  then have "\<And>h. op \<noteq> Frame h" and "\<And>h. op \<noteq> Start h"
    by simp_all
  from applyOp_log(1) [OF this, of fb] False show ?thesis
    by (cases op) (simp_all add: events_def)
next
  case True
  then show ?thesis
  proof
    assume "\<exists>h. op = Frame h"
    then obtain h where h: "op = Frame h" ..
    from onFrame_outcome [of h fb] show ?thesis
      by (auto simp add: h events_def)
  next
    assume "\<exists>h. op = Start h"
    then obtain h where h: "op = Start h" ..
    show ?thesis
    proof (cases "running (state fb)")
      case True
      then show ?thesis
        by (simp add: h events_def start_def)
    next
      case False
      from start_outcome [OF False, of h] False show ?thesis
        by (auto simp add: h events_def)
    qed
  qed
qed

lemma acceptedTimes_append:
  "acceptedTimes (xs @ ys) = acceptedTimes xs @ acceptedTimes ys"
  by (induction xs rule: acceptedTimes.induct) simp_all

lemma applyOps_rendered:
  "rendered (applyOps ops fb) = rendered fb @ acceptedTimes (trace ops fb)"
proof (induction ops arbitrary: fb)
  case Nil
  then show ?case by simp
next
  case (Cons op ops)
  then show ?case
    by (simp add: applyOp_rendered acceptedTimes_append)
qed

text \<open>A run under two ceilings. The engine is started at 1000 ms under a ceiling of
  100 frames per second, which accepts the first frame; the ceiling is then set to 30.
  The callback at 1010 ms is rejected, the one at 1040 ms is accepted and the one at
  1050 ms is rejected.\<close>

lemma onFrame_running:
  assumes "running (state fb)" and "pending fb = p # ps"
  shows "running (state (fst (onFrame h fb)))"
    and "fpsCap (state (fst (onFrame h fb))) = fpsCap (state fb)"
    and "pending (fst (onFrame h fb)) = ps @ [host_rafHandle h]"
    and "rendered (fst (onFrame h fb)) =
          (if 0 < fpsCap (state fb)
              \<and> (if lastFrameMs (state fb) \<noteq> 0 then host_now h - lastFrameMs (state fb) else 16.7)
                  < 1000 / fpsCap (state fb)
           then rendered fb else rendered fb @ [host_now h])"
    and "lastFrameMs (state (fst (onFrame h fb))) =
          (if 0 < fpsCap (state fb)
              \<and> (if lastFrameMs (state fb) \<noteq> 0 then host_now h - lastFrameMs (state fb) else 16.7)
                  < 1000 / fpsCap (state fb)
           then lastFrameMs (state fb) else host_now h)"
  using assms(1)
  by (auto simp add: onFrame_pending [OF assms(2)] loop_state loop_schedule loop_rendered
      loop_lastFrameMs)

lemma start_lastFrameMs:
  assumes "\<not> running (state fb)"
  shows "lastFrameMs (state (fst (start h fb))) =
          (if 0 < fpsCap (state fb) \<and> 16.7 < 1000 / fpsCap (state fb) then 0 else host_now h)"
  using assms by (simp add: start_def loop_lastFrameMs)

lemma ceiling_30_run:
  "trace [Start sampleHost, SetFpsCap (Fin 30), Frame (sampleHost\<lparr>host_now := 1010\<rparr>),
          Frame (sampleHost\<lparr>host_now := 1040\<rparr>), Frame (sampleHost\<lparr>host_now := 1050\<rparr>)]
     sampleEngine
   = [Restarted, Accepted 1000 100, Accepted 1040 30]"
proof -
  define e1 where "e1 = fst (start sampleHost sampleEngine)"
  define e2 where "e2 = setFpsCap (Fin 30) e1"
  define e3 where "e3 = fst (onFrame (sampleHost\<lparr>host_now := 1010\<rparr>) e2)"
  define e4 where "e4 = fst (onFrame (sampleHost\<lparr>host_now := 1040\<rparr>) e3)"
  define e5 where "e5 = fst (onFrame (sampleHost\<lparr>host_now := 1050\<rparr>) e4)"
  have s0: "\<not> running (state sampleEngine)" "rendered sampleEngine = []"
    "fpsCap (state sampleEngine) = 100" "pending sampleEngine = []"
    by (simp_all add: sampleEngine_def)
  have s1: "running (state e1)" "fpsCap (state e1) = 100" "pending e1 = [1]"
    "rendered e1 = [1000]" "lastFrameMs (state e1) = 1000"
    unfolding e1_def
    using start_stopped(2,3) [OF s0(1), of sampleHost] start_lastFrameMs [OF s0(1), of sampleHost]
    by (simp_all add: start_state s0 sampleHost_def)
  have s2: "running (state e2)" "fpsCap (state e2) = 30" "pending e2 = [1]"
    "rendered e2 = [1000]" "lastFrameMs (state e2) = 1000"
    by (simp_all add: e2_def setFpsCap_def s1 toInt32_def)
  have s3: "running (state e3)" "fpsCap (state e3) = 30" "pending e3 = [1]"
    "rendered e3 = [1000]" "lastFrameMs (state e3) = 1000"
    unfolding e3_def
    by (simp_all add: onFrame_running [OF s2(1) s2(3)] s2 sampleHost_def)
  have s4: "running (state e4)" "fpsCap (state e4) = 30" "pending e4 = [1]"
    "rendered e4 = [1000, 1040]" "lastFrameMs (state e4) = 1040"
    unfolding e4_def
    by (simp_all add: onFrame_running [OF s3(1) s3(3)] s3 sampleHost_def)
  have s5: "rendered e5 = [1000, 1040]"
    unfolding e5_def
    by (simp add: onFrame_running [OF s4(1) s4(3)] s4 sampleHost_def)
  have "events (Start sampleHost) sampleEngine = [Restarted, Accepted 1000 100]"
    "events (SetFpsCap (Fin 30)) e1 = []"
    "events (Frame (sampleHost\<lparr>host_now := 1010\<rparr>)) e2 = []"
    "events (Frame (sampleHost\<lparr>host_now := 1040\<rparr>)) e3 = [Accepted 1040 30]"
    "events (Frame (sampleHost\<lparr>host_now := 1050\<rparr>)) e4 = []"
    using s0 s1 s2 s3 s4 s5
    by (simp_all add: events_def e1_def [symmetric] e2_def [symmetric] e3_def [symmetric]
        e4_def [symmetric] e5_def [symmetric])
  then show ?thesis
    by (simp add: e1_def [symmetric] e2_def [symmetric] e3_def [symmetric] e4_def [symmetric])
qed

text \<open>
  C4 (as amended). A run of the loop begins at a \<^verbatim>\<open>start\<close> that finds the engine
  stopped. For every state of the engine and every sequence of operations with clock
  readings other than 0: a frame accepted under a positive ceiling, the ceiling in force
  at that callback, comes at least \<open>1000 / fpsCap\<close> milliseconds after the frame
  accepted before it in the same run; and while the ceiling stays positive it comes that
  long after every frame accepted before it in the run. The accepted frames are the
  frames rendered. A callback that comes sooner after the last accepted frame is
  rejected: nothing is rendered, the time of the last accepted frame stays, and the
  engine is still running with the next callback scheduled. A callback that finds no
  accepted frame recorded is judged on the nominal delta of 16.7 milliseconds. With a
  ceiling of 0 every callback of a running engine is accepted.
\<close>

theorem frame_rate_ceiling:
  "(list_all clockNonzero ops \<longrightarrow> cappedGaps (lastAccepted fb) (trace ops fb))
   \<and> (list_all clockNonzero ops \<and> list_all positiveCap ops \<and> 0 < fpsCap (state fb)
      \<longrightarrow> cappedPairs (case lastAccepted fb of None \<Rightarrow> [] | Some p \<Rightarrow> [p]) (trace ops fb))
   \<and> rendered (applyOps ops fb) = rendered fb @ acceptedTimes (trace ops fb)
   \<and> (running (state fb) \<and> pending fb \<noteq> [] \<and> 0 < fpsCap (state fb)
        \<and> lastFrameMs (state fb) \<noteq> 0
        \<and> host_now h - lastFrameMs (state fb) < 1000 / fpsCap (state fb)
      \<longrightarrow> rendered (fst (onFrame h fb)) = rendered fb
        \<and> lastFrameMs (state (fst (onFrame h fb))) = lastFrameMs (state fb)
        \<and> running (state (fst (onFrame h fb)))
        \<and> rafId (fst (onFrame h fb)) = host_rafHandle h
        \<and> host_rafHandle h \<in> set (pending (fst (onFrame h fb))))
   \<and> (running (state fb) \<and> pending fb \<noteq> [] \<and> lastFrameMs (state fb) = 0
      \<longrightarrow> rendered (fst (onFrame h fb))
          = (if 0 < fpsCap (state fb) \<and> 16.7 < 1000 / fpsCap (state fb) then rendered fb
             else rendered fb @ [host_now h]))
   \<and> (running (state fb) \<and> pending fb \<noteq> [] \<and> fpsCap (state fb) = 0
      \<longrightarrow> rendered (fst (onFrame h fb)) = rendered fb @ [host_now h])"
proof (intro conjI impI)
  assume "list_all clockNonzero ops"
  then show "cappedGaps (lastAccepted fb) (trace ops fb)"
    by (rule trace_gaps)
next
  assume a: "list_all clockNonzero ops \<and> list_all positiveCap ops \<and> 0 < fpsCap (state fb)"
  have "case lastAccepted fb of None \<Rightarrow> (case lastAccepted fb of None \<Rightarrow> [] | Some p \<Rightarrow> [p]) = []
        | Some q \<Rightarrow> list_all (\<lambda>a. a \<le> q) (case lastAccepted fb of None \<Rightarrow> [] | Some p \<Rightarrow> [p])"
    by (simp split: option.splits)
  with a show "cappedPairs (case lastAccepted fb of None \<Rightarrow> [] | Some p \<Rightarrow> [p]) (trace ops fb)"
    by (intro trace_pairs) simp_all
next
  show "rendered (applyOps ops fb) = rendered fb @ acceptedTimes (trace ops fb)"
    by (rule applyOps_rendered)
next
  assume a: "running (state fb) \<and> pending fb \<noteq> [] \<and> 0 < fpsCap (state fb)
        \<and> lastFrameMs (state fb) \<noteq> 0
        \<and> host_now h - lastFrameMs (state fb) < 1000 / fpsCap (state fb)"
  then obtain p ps where p: "pending fb = p # ps"
    by (cases "pending fb") simp_all
  note o = onFrame_pending [OF p]
  show "rendered (fst (onFrame h fb)) = rendered fb"
    using a by (simp add: o loop_rendered)
  show "lastFrameMs (state (fst (onFrame h fb))) = lastFrameMs (state fb)"
    using a by (simp add: o loop_lastFrameMs)
  show "running (state (fst (onFrame h fb)))"
    using a by (simp add: o loop_state)
  show "rafId (fst (onFrame h fb)) = host_rafHandle h"
    using a by (simp add: o loop_schedule)
  show "host_rafHandle h \<in> set (pending (fst (onFrame h fb)))"
    using a by (simp add: o loop_schedule)
next
  assume a: "running (state fb) \<and> pending fb \<noteq> [] \<and> lastFrameMs (state fb) = 0"
  then obtain p ps where p: "pending fb = p # ps"
    by (cases "pending fb") simp_all
  show "rendered (fst (onFrame h fb))
          = (if 0 < fpsCap (state fb) \<and> 16.7 < 1000 / fpsCap (state fb) then rendered fb
             else rendered fb @ [host_now h])"
    using a by (simp add: onFrame_pending [OF p] loop_rendered)
next
  assume a: "running (state fb) \<and> pending fb \<noteq> [] \<and> fpsCap (state fb) = 0"
  then obtain p ps where p: "pending fb = p # ps"
    by (cases "pending fb") simp_all
  show "rendered (fst (onFrame h fb)) = rendered fb @ [host_now h]"
    using a by (simp add: onFrame_pending [OF p] loop_rendered)
qed

theorem frame_rate_ceiling_witness:
  "list_all clockNonzero [Start sampleHost, SetFpsCap (Fin 30), Frame (sampleHost\<lparr>host_now := 1010\<rparr>),
        Frame (sampleHost\<lparr>host_now := 1040\<rparr>), Frame (sampleHost\<lparr>host_now := 1050\<rparr>)]
   \<and> list_all positiveCap [Start sampleHost, SetFpsCap (Fin 30), Frame (sampleHost\<lparr>host_now := 1010\<rparr>),
        Frame (sampleHost\<lparr>host_now := 1040\<rparr>), Frame (sampleHost\<lparr>host_now := 1050\<rparr>)]
   \<and> 0 < fpsCap (state sampleEngine)
   \<and> trace [Start sampleHost, SetFpsCap (Fin 30), Frame (sampleHost\<lparr>host_now := 1010\<rparr>),
        Frame (sampleHost\<lparr>host_now := 1040\<rparr>), Frame (sampleHost\<lparr>host_now := 1050\<rparr>)] sampleEngine
      = [Restarted, Accepted 1000 100, Accepted 1040 30]
   \<and> cappedGaps (lastAccepted sampleEngine) [Restarted, Accepted 1000 100, Accepted 1040 30]
   \<and> cappedPairs [] [Restarted, Accepted 1000 100, Accepted 1040 30]
   \<and> rendered (applyOps [Start sampleHost, SetFpsCap (Fin 30), Frame (sampleHost\<lparr>host_now := 1010\<rparr>),
        Frame (sampleHost\<lparr>host_now := 1040\<rparr>), Frame (sampleHost\<lparr>host_now := 1050\<rparr>)] sampleEngine)
      = [1000, 1040]
   \<and> cappedPairs [1000]
        (trace [Frame (sampleHost\<lparr>host_now := 1010\<rparr>), SetFpsCap (Fin 24), Stop,
                Frame (sampleHost\<lparr>host_now := 1040\<rparr>), Start (sampleHost\<lparr>host_now := 1041\<rparr>)]
           (sampleEngine\<lparr>state := (state sampleEngine)\<lparr>running := True, lastFrameMs := 1000, fpsCap := 30\<rparr>,
                         pending := [1]\<rparr>))
   \<and> running (state (sampleEngine\<lparr>state := (state sampleEngine)\<lparr>running := True, lastFrameMs := 1000\<rparr>,
                       pending := [1]\<rparr>))
   \<and> rendered (fst (onFrame (sampleHost\<lparr>host_now := 1005\<rparr>)
        (sampleEngine\<lparr>state := (state sampleEngine)\<lparr>running := True, lastFrameMs := 1000\<rparr>,
                       pending := [1]\<rparr>))) = []
   \<and> pending (fst (onFrame (sampleHost\<lparr>host_now := 1005\<rparr>)
        (sampleEngine\<lparr>state := (state sampleEngine)\<lparr>running := True, lastFrameMs := 1000\<rparr>,
                       pending := [1]\<rparr>))) \<noteq> []
   \<and> rendered (fst (onFrame (sampleHost\<lparr>host_now := 1005\<rparr>)
        (sampleEngine\<lparr>state := (state sampleEngine)\<lparr>running := True, fpsCap := 30\<rparr>,
                       pending := [1]\<rparr>))) = []
   \<and> rendered (fst (onFrame (sampleHost\<lparr>host_now := 1005\<rparr>)
        (sampleEngine\<lparr>state := (state sampleEngine)\<lparr>running := True, lastFrameMs := 1000, fpsCap := 0\<rparr>,
                       pending := [1]\<rparr>))) = [1005]"
  using frame_rate_ceiling [of
      "[Start sampleHost, SetFpsCap (Fin 30), Frame (sampleHost\<lparr>host_now := 1010\<rparr>),
        Frame (sampleHost\<lparr>host_now := 1040\<rparr>), Frame (sampleHost\<lparr>host_now := 1050\<rparr>)]"
      sampleEngine sampleHost]
    frame_rate_ceiling [of
      "[Frame (sampleHost\<lparr>host_now := 1010\<rparr>), SetFpsCap (Fin 24), Stop,
        Frame (sampleHost\<lparr>host_now := 1040\<rparr>), Start (sampleHost\<lparr>host_now := 1041\<rparr>)]"
      "sampleEngine\<lparr>state := (state sampleEngine)\<lparr>running := True, lastFrameMs := 1000, fpsCap := 30\<rparr>,
                       pending := [1]\<rparr>" sampleHost]
    frame_rate_ceiling [of "[]" "sampleEngine\<lparr>state := (state sampleEngine)\<lparr>running := True, lastFrameMs := 1000\<rparr>,
                       pending := [1]\<rparr>" "sampleHost\<lparr>host_now := 1005\<rparr>"]
    frame_rate_ceiling [of "[]" "sampleEngine\<lparr>state := (state sampleEngine)\<lparr>running := True, fpsCap := 30\<rparr>,
                       pending := [1]\<rparr>" "sampleHost\<lparr>host_now := 1005\<rparr>"]
    frame_rate_ceiling [of "[]" "sampleEngine\<lparr>state := (state sampleEngine)\<lparr>running := True, lastFrameMs := 1000, fpsCap := 0\<rparr>,
                       pending := [1]\<rparr>" "sampleHost\<lparr>host_now := 1005\<rparr>"]
    ceiling_30_run
  by (auto simp add: sampleEngine_def sampleHost_def clockNonzero_def positiveCap_def
      lastAccepted_def toInt32_def)

text \<open>\<^verbatim>\<open>start\<close> forgets the last accepted frame: with a ceiling of 100 frames per
  second, a frame is rendered at 1000 ms and, after \<^verbatim>\<open>stop\<close> and \<^verbatim>\<open>start\<close>, another
  one at 1001 ms. And a frame accepted at the clock reading 0 is forgotten at once: the
  engine started at 0 ms renders its first frame there and the next one at 1 ms.\<close>

theorem restart_counterexample:
  "rendered (applyOps [Start sampleHost, Stop, Start (sampleHost\<lparr>host_now := 1001\<rparr>)] sampleEngine)
     = [1000, 1001]
   \<and> fpsCap (state (applyOps [Start sampleHost, Stop, Start (sampleHost\<lparr>host_now := 1001\<rparr>)]
        sampleEngine)) = 100
   \<and> \<not> spaced (1000 / 100) [1000, 1001]
   \<and> rendered (applyOps [Start (sampleHost\<lparr>host_now := 0\<rparr>), Frame (sampleHost\<lparr>host_now := 1\<rparr>)]
        sampleEngine) = [0, 1]
   \<and> fpsCap (state (applyOps [Start (sampleHost\<lparr>host_now := 0\<rparr>), Frame (sampleHost\<lparr>host_now := 1\<rparr>)]
        sampleEngine)) = 100
   \<and> \<not> spaced (1000 / 100) [0, 1]"
proof -
  define e1 where "e1 = fst (start sampleHost sampleEngine)"
  define e2 where "e2 = stop e1"
  define e3 where "e3 = fst (start (sampleHost\<lparr>host_now := 1001\<rparr>) e2)"
  define z1 where "z1 = fst (start (sampleHost\<lparr>host_now := 0\<rparr>) sampleEngine)"
  define z2 where "z2 = fst (onFrame (sampleHost\<lparr>host_now := 1\<rparr>) z1)"
  have s0: "\<not> running (state sampleEngine)" "rendered sampleEngine = []"
    "fpsCap (state sampleEngine) = 100" "pending sampleEngine = []"
    by (simp_all add: sampleEngine_def)
  have r1: "rendered e1 = [1000]"
    unfolding e1_def using start_stopped(3) [OF s0(1), of sampleHost]
    by (simp add: s0 sampleHost_def)
  have f1: "fpsCap (state e1) = 100"
    by (simp add: e1_def start_state s0)
  have s2: "\<not> running (state e2)" "rendered e2 = [1000]" "fpsCap (state e2) = 100"
    by (simp_all add: e2_def stop_fields r1 f1)
  have r3: "rendered e3 = [1000, 1001]"
    unfolding e3_def using start_stopped(3) [OF s2(1), of "sampleHost\<lparr>host_now := 1001\<rparr>"]
    by (simp add: s2)
  have f3: "fpsCap (state e3) = 100"
    by (simp add: e3_def start_state s2)
  have t1: "running (state z1)" "fpsCap (state z1) = 100" "pending z1 = [1]"
    "rendered z1 = [0]" "lastFrameMs (state z1) = 0"
    unfolding z1_def
    using start_stopped(2,3) [OF s0(1), of "sampleHost\<lparr>host_now := 0\<rparr>"]
      start_lastFrameMs [OF s0(1), of "sampleHost\<lparr>host_now := 0\<rparr>"]
    by (simp_all add: start_state s0 sampleHost_def)
  have t2: "rendered z2 = [0, 1]" "fpsCap (state z2) = 100"
    unfolding z2_def
    by (simp_all add: onFrame_running [OF t1(1) t1(3)] t1)
  show ?thesis
    using r3 f3 t2 by (simp add: e1_def e2_def e3_def z1_def z2_def)
qed

text \<open>The nominal delta also decides the first callback of a run. Under a ceiling with
  \<open>16.7 < 1000 / fpsCap\<close> (below about 60 frames per second) that callback is
  rejected, the time of the last accepted frame stays 0, and so does every later
  callback see the nominal delta: no frame of the run is rendered.\<close>

lemma applyOp_sameRun_fpsCap:
  "sameRun op \<Longrightarrow> fpsCap (state (applyOp op fb)) = fpsCap (state fb)"
  by (simp add: applyOp_fpsCap sameRun_def split: Op.splits)

lemma starved_step:
  assumes "lastFrameMs (state fb) = 0" and "0 < fpsCap (state fb)"
    and "16.7 < 1000 / fpsCap (state fb)" and "sameRun op"
  shows "lastFrameMs (state (applyOp op fb)) = 0 \<and> rendered (applyOp op fb) = rendered fb
         \<and> fpsCap (state (applyOp op fb)) = fpsCap (state fb)"
proof (cases "\<exists>h. op = Frame h")
  case True
  then obtain h where h: "op = Frame h" ..
  show ?thesis
  proof (cases "pending fb")
    case Nil
    with assms h show ?thesis
      by (simp add: onFrame_def)
  next
    case (Cons p ps)
    with assms h show ?thesis
      by (simp add: onFrame_pending [OF Cons] loop_rendered loop_lastFrameMs loop_state)
  qed
next
  case False
  then have "\<And>h. op \<noteq> Frame h"
    by simp
  moreover from assms(4) have "\<And>h. op \<noteq> Start h"
    by (auto simp add: sameRun_def)
  ultimately show ?thesis
    using applyOp_log [of op fb] assms(1) applyOp_sameRun_fpsCap [OF assms(4), of fb]
    by simp
qed

lemma starved_run:
  "lastFrameMs (state fb) = 0 \<Longrightarrow> 0 < fpsCap (state fb) \<Longrightarrow>
   16.7 < 1000 / fpsCap (state fb) \<Longrightarrow> list_all sameRun ops \<Longrightarrow>
   rendered (applyOps ops fb) = rendered fb"
proof (induction ops arbitrary: fb)
  case Nil
  then show ?case by simp
next
  case (Cons op ops)
  from Cons.prems have s: "sameRun op" "list_all sameRun ops"
    by simp_all
  note st = starved_step [OF Cons.prems(1,2,3) s(1)]
  have "rendered (applyOps ops (applyOp op fb)) = rendered (applyOp op fb)"
    using st Cons.prems(2,3) s(2) by (intro Cons.IH) simp_all
  with st show ?case
    by simp
qed

lemma low_ceiling_never_renders:
  assumes "\<not> running (state fb)" and "0 < fpsCap (state fb)"
    and "16.7 < 1000 / fpsCap (state fb)" and "list_all sameRun ops"
  shows "rendered (applyOps (Start h0 # ops) fb) = rendered fb"
proof -
  define fb1 where "fb1 = fst (start h0 fb)"
  have r: "rendered fb1 = rendered fb"
    unfolding fb1_def using start_stopped(3) [OF assms(1), of h0] assms(2,3) by simp
  have l: "lastFrameMs (state fb1) = 0"
    unfolding fb1_def using assms by (simp add: start_def loop_lastFrameMs)
  have f: "fpsCap (state fb1) = fpsCap (state fb)"
    by (simp add: fb1_def start_state)
  have "rendered (applyOps ops fb1) = rendered fb1"
    using l assms(2,3,4) by (intro starved_run) (simp_all add: f)
  with r have "rendered (applyOps ops fb1) = rendered fb"
    by simp
  then show ?thesis
    by (simp add: fb1_def)
qed

end
